theory Spec2Isabelle
  imports Complex_Main
begin

section \<open>Common conventions\<close>

text \<open>
  The four simulation engines of \<^verbatim>\<open>src/models\<close> are embedded as HOL functions.
  A TypeScript \<^verbatim>\<open>number\<close> is a \<^typ>\<open>real\<close>, and arithmetic on it is exact; counts
  that the source uses as array lengths or loop bounds are \<^typ>\<open>nat\<close>. Two places
  depart from this. The player count of the equilibrium solver is a real, because
  \<^verbatim>\<open>Array(players)\<close> throws a \<^verbatim>\<open>RangeError\<close> for a count that is not an array
  length. The probability weighting function is embedded with the infinities,
  \<^verbatim>\<open>NaN\<close>, overflow and underflow of the \<^verbatim>\<open>number\<close> type, because what it returns
  for an extreme \<^verbatim>\<open>gamma\<close> depends on them. A thrown exception is the left summand of
  a sum type. Reading an array outside its range gives \<^verbatim>\<open>undefined\<close> in the
  source, which is \<^term>\<open>None\<close> here; reading a property of \<^verbatim>\<open>undefined\<close>
  throws a \<^verbatim>\<open>TypeError\<close>. The result \<^verbatim>\<open>NaN\<close> of \<^verbatim>\<open>0 / 0\<close> is also written
  \<^term>\<open>None\<close>, at the places where the source can produce it.

  \<^verbatim>\<open>Math.random()\<close> is a global stream: it is a function \<open>rnd\<close> from the number
  of the draw to the value drawn, and every function that draws takes the number of
  the next draw and returns the number after its last one.
\<close>

datatype error = TypeError | RangeError

type_synonym rng = "nat \<Rightarrow> real"

definition valid_rng :: "rng \<Rightarrow> bool" where
  "valid_rng rnd = (\<forall>i. 0 \<le> rnd i \<and> rnd i < 1)"

definition nth_opt :: "'a list \<Rightarrow> nat \<Rightarrow> 'a option" where
  "nth_opt xs i = (if i < length xs then Some (xs ! i) else None)"

text \<open>
  \<^verbatim>\<open>Array(n)\<close> for a number \<open>n\<close>: the length of the new array, or the
  \<^verbatim>\<open>RangeError\<close> that the call throws when \<open>n\<close> is negative, not an integer, or
  \<open>2^32\<close> or more.
\<close>

definition array_length :: "real \<Rightarrow> error + nat" where
  "array_length n =
     (if 0 \<le> n \<and> n < 2 ^ 32 \<and> real_of_int \<lfloor>n\<rfloor> = n then Inr (nat \<lfloor>n\<rfloor>)
      else Inl RangeError)"

text \<open>\<^verbatim>\<open>Math.floor(Math.random() * n)\<close> for an array length \<open>n\<close>.\<close>

definition random_index :: "real \<Rightarrow> nat \<Rightarrow> nat" where
  "random_index r n = nat \<lfloor>r * real n\<rfloor>"

section \<open>GameTheory.ts: iterated best response\<close>

text \<open>
  The player count is a \<^verbatim>\<open>number\<close> that the constructor stores as it is given, so
  it is a \<^typ>\<open>real\<close>: it may be negative or have a fraction.
\<close>

record GameTheoryConfig =
  players :: real
  strategies :: "string list"
  payoffs :: "real list list list"
  iterations :: nat

text \<open>\<^verbatim>\<open>Partial<GameTheoryConfig>\<close>: every field may be absent.\<close>

record GameTheoryPartial =
  opt_players :: "real option"
  opt_strategies :: "string list option"
  opt_payoffs :: "real list list list option"
  opt_iterations :: "nat option"

record GameTheoryResult =
  equilibrium :: "string option list"
  result_payoffs :: "real option list"
  convergence :: "real option list"
  result_iterations :: nat

definition or_default :: "'a option \<Rightarrow> 'a \<Rightarrow> 'a" where
  "or_default x d = (case x of None \<Rightarrow> d | Some v \<Rightarrow> v)"

text \<open>The constructor: the defaults, overwritten by the fields that are given.\<close>

definition GameTheorySimulator :: "GameTheoryPartial \<Rightarrow> GameTheoryConfig" where
  "GameTheorySimulator config =
     \<lparr> players = or_default (opt_players config) 2,
       strategies = or_default (opt_strategies config) [''Cooperate'', ''Defect''],
       payoffs = or_default (opt_payoffs config)
         [[[3, 3], [1, 4]],
          [[4, 1], [2, 2]]],
       iterations = or_default (opt_iterations config) 100 \<rparr>"

text \<open>
  \<^verbatim>\<open>getPayoff\<close>: the two-player lookup \<^verbatim>\<open>payoffs[s0][s1][player]\<close>, and for any
  other profile length \<^verbatim>\<open>payoffs[0][0][player] || 0\<close>.
\<close>

definition getPayoff :: "GameTheoryConfig \<Rightarrow> nat \<Rightarrow> nat list \<Rightarrow> error + real option" where
  "getPayoff cfg player strats =
     (if length strats = 2 then
        (case nth_opt (payoffs cfg) (strats ! 0) of
           None \<Rightarrow> Inl TypeError
         | Some row \<Rightarrow>
             (case nth_opt row (strats ! 1) of
                None \<Rightarrow> Inl TypeError
              | Some entry \<Rightarrow> Inr (nth_opt entry player)))
      else
        (case nth_opt (payoffs cfg) 0 of
           None \<Rightarrow> Inl TypeError
         | Some row \<Rightarrow>
             (case nth_opt row 0 of
                None \<Rightarrow> Inl TypeError
              | Some entry \<Rightarrow>
                  (case nth_opt entry player of
                     None \<Rightarrow> Inr (Some 0)
                   | Some v \<Rightarrow> Inr (Some (if v = 0 then 0 else v))))))"

text \<open>
  \<^verbatim>\<open>bestPayoff\<close> starts at \<^verbatim>\<open>-Infinity\<close>; \<^verbatim>\<open>payoff > bestPayoff\<close> is false for an
  \<^verbatim>\<open>undefined\<close> payoff.
\<close>

datatype best_payoff = NegInfinity | Finite real

fun exceeds :: "real option \<Rightarrow> best_payoff \<Rightarrow> bool" where
  "exceeds None b = False"
| "exceeds (Some v) NegInfinity = True"
| "exceeds (Some v) (Finite b) = (b < v)"

fun best_response_loop ::
  "GameTheoryConfig \<Rightarrow> nat \<Rightarrow> nat list \<Rightarrow> nat list \<Rightarrow> nat \<times> best_payoff \<Rightarrow> error + nat \<times> best_payoff" where
  "best_response_loop cfg player current [] best = Inr best"
| "best_response_loop cfg player current (strategy # rest) best =
     (case getPayoff cfg player (current[player := strategy]) of
        Inl e \<Rightarrow> Inl e
      | Inr payoff \<Rightarrow>
          best_response_loop cfg player current rest
            (if exceeds payoff (snd best) then (strategy, Finite (the payoff)) else best))"

definition findBestResponse :: "GameTheoryConfig \<Rightarrow> nat \<Rightarrow> nat list \<Rightarrow> error + nat" where
  "findBestResponse cfg player currentStrategies =
     (case best_response_loop cfg player currentStrategies
             [0..<length (strategies cfg)] (0, NegInfinity) of
        Inl e \<Rightarrow> Inl e
      | Inr best \<Rightarrow> Inr (fst best))"

text \<open>
  The inner loop of \<^verbatim>\<open>simulate\<close>: the players in the order of their indices, each
  best response written into \<^verbatim>\<open>playerStrategies\<close> before the next player's is computed.
  In \<^verbatim>\<open>simulate\<close> the profile has one entry for each player, so every write is
  inside the array.
\<close>

fun update_players :: "GameTheoryConfig \<Rightarrow> nat list \<Rightarrow> nat list \<Rightarrow> error + nat list" where
  "update_players cfg [] playerStrategies = Inr playerStrategies"
| "update_players cfg (player # rest) playerStrategies =
     (case findBestResponse cfg player playerStrategies of
        Inl e \<Rightarrow> Inl e
      | Inr bestResponse \<Rightarrow> update_players cfg rest (playerStrategies[player := bestResponse]))"

text \<open>
  The number of passes of \<^verbatim>\<open>for (let player = 0; player < players; player++)\<close>.
\<close>

definition player_count :: "GameTheoryConfig \<Rightarrow> nat" where
  "player_count cfg = nat \<lceil>players cfg\<rceil>"

definition best_response_round :: "GameTheoryConfig \<Rightarrow> nat list \<Rightarrow> error + nat list" where
  "best_response_round cfg playerStrategies =
     update_players cfg [0..<player_count cfg] playerStrategies"

definition count_matches :: "nat list \<Rightarrow> nat list \<Rightarrow> nat" where
  "count_matches current previous =
     length (filter (\<lambda>i. nth_opt previous i = Some (current ! i)) [0..<length current])"

definition calculateConvergence :: "nat list list \<Rightarrow> real option" where
  "calculateConvergence history =
     (if length history < 2 then Some 0
      else
        (let current = history ! (length history - 1);
             previous = history ! (length history - 2)
         in if length current = 0 then None
            else Some (real (count_matches current previous) / real (length current))))"

fun sequence_results :: "(error + 'a) list \<Rightarrow> error + 'a list" where
  "sequence_results [] = Inr []"
| "sequence_results (r # rs) =
     (case r of
        Inl e \<Rightarrow> Inl e
      | Inr x \<Rightarrow> (case sequence_results rs of Inl e \<Rightarrow> Inl e | Inr xs \<Rightarrow> Inr (x # xs)))"

text \<open>\<^verbatim>\<open>calculatePayoffs\<close> maps over \<^verbatim>\<open>Array(players)\<close>.\<close>

definition calculatePayoffs :: "GameTheoryConfig \<Rightarrow> nat list \<Rightarrow> error + real option list" where
  "calculatePayoffs cfg strats =
     (case array_length (players cfg) of
        Inl e \<Rightarrow> Inl e
      | Inr n \<Rightarrow> sequence_results (map (\<lambda>player. getPayoff cfg player strats) [0..<n]))"

record game_run =
  playerStrategies :: "nat list"
  convergence_log :: "real option list"
  strategyHistory :: "nat list list"

definition converged_enough :: "real option \<Rightarrow> bool" where
  "converged_enough c = (case c of None \<Rightarrow> False | Some v \<Rightarrow> v > 0.99)"

text \<open>
  The outer loop; the first argument is the number of rounds still allowed
  (\<^verbatim>\<open>iterations - iter\<close>).
\<close>

fun simulate_rounds :: "GameTheoryConfig \<Rightarrow> nat \<Rightarrow> game_run \<Rightarrow> error + game_run" where
  "simulate_rounds cfg 0 run = Inr run"
| "simulate_rounds cfg (Suc remaining) run =
     (let history = strategyHistory run @ [playerStrategies run] in
      case best_response_round cfg (playerStrategies run) of
        Inl e \<Rightarrow> Inl e
      | Inr updated \<Rightarrow>
          (let converged = calculateConvergence history;
               run' = \<lparr> playerStrategies = updated,
                        convergence_log = convergence_log run @ [converged],
                        strategyHistory = history \<rparr>
           in if converged_enough converged then Inr run'
              else simulate_rounds cfg remaining run'))"

text \<open>
  The initial profile, one draw per player: what \<^verbatim>\<open>.fill(0).map(...)\<close> makes of the
  array \<^verbatim>\<open>Array(players)\<close>, once that array exists (see \<open>GameTheory_simulate\<close> for
  its creation).
\<close>

definition initial_strategies :: "GameTheoryConfig \<Rightarrow> rng \<Rightarrow> nat list" where
  "initial_strategies cfg rnd =
     map (\<lambda>i. random_index (rnd i) (length (strategies cfg))) [0..<nat \<lfloor>players cfg\<rfloor>]"

definition GameTheory_simulate_from :: "GameTheoryConfig \<Rightarrow> nat list \<Rightarrow> error + GameTheoryResult" where
  "GameTheory_simulate_from cfg initial =
     (case simulate_rounds cfg (iterations cfg)
             \<lparr> playerStrategies = initial, convergence_log = [], strategyHistory = [] \<rparr> of
        Inl e \<Rightarrow> Inl e
      | Inr run \<Rightarrow>
          (case calculatePayoffs cfg (playerStrategies run) of
             Inl e \<Rightarrow> Inl e
           | Inr finalPayoffs \<Rightarrow>
               Inr \<lparr> equilibrium = map (nth_opt (strategies cfg)) (playerStrategies run),
                     result_payoffs = finalPayoffs,
                     convergence = convergence_log run,
                     result_iterations = length (convergence_log run) \<rparr>))"

text \<open>
  \<^verbatim>\<open>simulate\<close>: its first statement creates \<^verbatim>\<open>Array(players)\<close>, which throws for a
  player count that is not an array length; then the profile is drawn and the rounds
  are run.
\<close>

definition GameTheory_simulate :: "GameTheoryConfig \<Rightarrow> rng \<Rightarrow> error + GameTheoryResult" where
  "GameTheory_simulate cfg rnd =
     (case array_length (players cfg) of
        Inl e \<Rightarrow> Inl e
      | Inr n \<Rightarrow> GameTheory_simulate_from cfg (initial_strategies cfg rnd))"

definition prisonersDilemma_config :: "nat \<Rightarrow> GameTheoryConfig" where
  "prisonersDilemma_config its =
     GameTheorySimulator
       \<lparr> opt_players = Some 2,
         opt_strategies = Some [''Cooperate'', ''Defect''],
         opt_payoffs = Some
           [[[3, 3], [0, 5]],
            [[5, 0], [1, 1]]],
         opt_iterations = Some its \<rparr>"

definition prisonersDilemma :: "nat \<Rightarrow> rng \<Rightarrow> error + GameTheoryResult" where
  "prisonersDilemma its rnd = GameTheory_simulate (prisonersDilemma_config its) rnd"

definition coordinationGame_config :: "nat \<Rightarrow> GameTheoryConfig" where
  "coordinationGame_config its =
     GameTheorySimulator
       \<lparr> opt_players = Some 2,
         opt_strategies = Some [''Strategy A'', ''Strategy B''],
         opt_payoffs = Some
           [[[2, 2], [0, 0]],
            [[0, 0], [1, 1]]],
         opt_iterations = Some its \<rparr>"

text \<open>
  The round as the specification words it: every player's best response is computed
  against the profile recorded at the start of the round.
\<close>

definition simultaneous_round :: "GameTheoryConfig \<Rightarrow> nat list \<Rightarrow> error + nat list" where
  "simultaneous_round cfg start =
     sequence_results (map (\<lambda>player. findBestResponse cfg player start) [0..<player_count cfg])"

text \<open>
  The shape that the data model asks of a two-player game: a \<open>k\<close> by \<open>k\<close> table of
  payoff vectors of length 2, for \<open>k \<ge> 1\<close> strategies.
\<close>

definition two_player_table :: "GameTheoryConfig \<Rightarrow> bool" where
  "two_player_table cfg =
     (players cfg = 2 \<and> 0 < length (strategies cfg) \<and>
      length (payoffs cfg) = length (strategies cfg) \<and>
      list_all (\<lambda>row. length row = length (strategies cfg) \<and>
                      list_all (\<lambda>entry. length entry = 2) row) (payoffs cfg))"

section \<open>EPR.ts: the socioeconomic dynamics simulator\<close>

text \<open>The field \<^verbatim>\<open>value\<close> of the source is \<open>val\<close> here.\<close>

record EPRState =
  val :: real
  stability :: real
  equity :: real
  reputation :: real
  resources :: real

text \<open>\<^verbatim>\<open>Partial<EPRState>\<close>: every field may be absent.\<close>

record EPRPartialState =
  opt_val :: "real option"
  opt_stability :: "real option"
  opt_equity :: "real option"
  opt_reputation :: "real option"
  opt_resources :: "real option"

datatype role = economic | political | social | mastery

datatype zone = red | blue

datatype action = allocate | negotiate | redistribute | restrain

record EPRAgent =
  name :: string
  role :: role
  agent_state :: EPRState
  principles :: "string list"

record EPRScenario =
  scenario_name :: string
  initial :: EPRPartialState
  steps :: nat
  scenario_zone :: zone

text \<open>The fields of an \<^verbatim>\<open>EPRSimulator\<close> object.\<close>

record EPRSimulator_fields =
  state :: EPRState
  agents :: "EPRAgent list"
  scenario :: EPRScenario

record EPRHistory =
  history_value :: "real list"
  history_stability :: "real list"
  history_equity :: "real list"
  history_reputation :: "real list"

text \<open>
  The five messages of \<^verbatim>\<open>generateInsights\<close>, in the order of the source: restraint
  built reputation; virtuous motion achieved; equity safeguards; strong value creation;
  warning of political instability.
\<close>

datatype insight =
  RestraintBuiltReputation | VirtuousMotion | EquitySafeguards | StrongValueCreation |
  InstabilityWarning

record EPRSimulationResult =
  history :: EPRHistory
  finalState :: EPRState
  insights :: "insight list"
  result_zone :: zone

text \<open>\<^verbatim>\<open>x || d\<close> on an optional number: absent and \<open>0\<close> both give the default.\<close>

definition or_number :: "real option \<Rightarrow> real \<Rightarrow> real" where
  "or_number x d = (case x of None \<Rightarrow> d | Some v \<Rightarrow> if v = 0 then d else v)"

definition EPRSimulator :: "EPRScenario \<Rightarrow> EPRSimulator_fields" where
  "EPRSimulator sc =
     (let st = \<lparr> val = or_number (opt_val (initial sc)) 80,
                 stability = or_number (opt_stability (initial sc)) 1.0,
                 equity = or_number (opt_equity (initial sc)) 0.5,
                 reputation = or_number (opt_reputation (initial sc)) 0.7,
                 resources = or_number (opt_resources (initial sc)) 100 \<rparr>
      in \<lparr> state = st,
           agents =
             [\<lparr> name = ''EcoAgent'', role = economic, agent_state = st,
                principles = [''prudence'', ''growth''] \<rparr>,
              \<lparr> name = ''PolAgent'', role = political, agent_state = st,
                principles = [''stability'', ''negotiation''] \<rparr>,
              \<lparr> name = ''SocAgent'', role = social, agent_state = st,
                principles = [''equity'', ''redistribution''] \<rparr>,
              \<lparr> name = ''GracianMaster'', role = mastery, agent_state = st,
                principles = [''gracian_restraint'', ''reputation'', ''timing''] \<rparr>],
           scenario = sc \<rparr>)"

definition zone_of :: "EPRState \<Rightarrow> zone" where
  "zone_of st = (if stability st < 1.2 then red else blue)"

text \<open>
  \<^verbatim>\<open>selectAction\<close>: the draw for the restraint is made only when the agent has the
  principle; the role's draw follows. The result is the action and the number of the
  next draw.
\<close>

definition selectAction :: "rng \<Rightarrow> nat \<Rightarrow> EPRAgent \<Rightarrow> action \<times> nat" where
  "selectAction rnd i agent =
     (if ''gracian_restraint'' \<in> set (principles agent) \<and> rnd i < 0.25 then (restrain, Suc i)
      else
        (let j = (if ''gracian_restraint'' \<in> set (principles agent) then Suc i else i) in
         case role agent of
           economic \<Rightarrow> (if rnd j < 0.6 then allocate else negotiate, Suc j)
         | political \<Rightarrow> (if rnd j < 0.7 then negotiate else allocate, Suc j)
         | social \<Rightarrow> (if rnd j < 0.8 then redistribute else negotiate, Suc j)
         | mastery \<Rightarrow> (restrain, j)))"

definition calculateReward :: "EPRState \<Rightarrow> action \<Rightarrow> zone \<Rightarrow> real" where
  "calculateReward st act z =
     (let base = (case act of
                    allocate \<Rightarrow> (if z = red then 8 else 5)
                  | negotiate \<Rightarrow> 12
                  | redistribute \<Rightarrow> 10
                  | restrain \<Rightarrow> 6);
          reward = (if z = red \<and> stability st < 1.2 then base * 1.15 else base)
      in if resources st < 20 then reward - 5 else reward)"

definition apply_action :: "EPRState \<Rightarrow> action \<Rightarrow> zone \<Rightarrow> EPRState" where
  "apply_action st act z =
     (case act of
        allocate \<Rightarrow>
          (if resources st \<ge> 10
           then st\<lparr> resources := resources st - 10,
                    val := val st + (if z = red then 8 else 5) \<rparr>
           else st)
      | negotiate \<Rightarrow> st\<lparr> stability := stability st + (if z = red then 0.15 else 0.08) \<rparr>
      | redistribute \<Rightarrow>
          st\<lparr> equity := equity st + 0.08, reputation := min 1 (reputation st + 0.05) \<rparr>
      | restrain \<Rightarrow> st\<lparr> reputation := min 1 (reputation st + 0.08) \<rparr>)"

text \<open>The reward is computed and dropped, as in the source.\<close>

definition executeAgentAction :: "rng \<Rightarrow> nat \<Rightarrow> EPRState \<Rightarrow> EPRAgent \<Rightarrow> zone \<Rightarrow> EPRState \<times> nat" where
  "executeAgentAction rnd i st agent z =
     (let (act, j) = selectAction rnd i agent;
          reward = calculateReward st act z
      in (apply_action st act z, j))"

fun agents_act :: "rng \<Rightarrow> nat \<Rightarrow> EPRState \<Rightarrow> EPRAgent list \<Rightarrow> zone \<Rightarrow> EPRState \<times> nat" where
  "agents_act rnd i st [] z = (st, i)"
| "agents_act rnd i st (agent # rest) z =
     (let (st', j) = executeAgentAction rnd i st agent z in agents_act rnd j st' rest z)"

definition applySystemDynamics :: "rng \<Rightarrow> nat \<Rightarrow> EPRState \<Rightarrow> EPRState \<times> nat" where
  "applySystemDynamics rnd i st =
     (\<lparr> val = val st + (rnd i - 0.3) * 5,
        stability = max 0 (min 2 (stability st + (rnd (i + 1) - 0.5) * 0.05)),
        equity = max 0 (min 1 (equity st + (rnd (i + 2) - 0.5) * 0.02)),
        reputation = max 0 (min 1 (reputation st + (rnd (i + 3) - 0.4) * 0.03)),
        resources = max 0 (min 300 (resources st + 2)) \<rparr>,
      i + 4)"

text \<open>One pass of the loop body after the state has been recorded.\<close>

definition epr_step :: "rng \<Rightarrow> nat \<Rightarrow> EPRSimulator_fields \<Rightarrow> EPRSimulator_fields \<times> nat" where
  "epr_step rnd i sim =
     (let z = zone_of (state sim);
          (st1, j) = agents_act rnd i (state sim) (agents sim) z;
          (st2, k) = applySystemDynamics rnd j st1
      in (sim\<lparr> state := st2,
                agents := map (\<lambda>agent. agent\<lparr> agent_state := st2 \<rparr>) (agents sim) \<rparr>, k))"

definition record_state :: "EPRHistory \<Rightarrow> EPRState \<Rightarrow> EPRHistory" where
  "record_state h st =
     \<lparr> history_value = history_value h @ [val st],
       history_stability = history_stability h @ [stability st],
       history_equity = history_equity h @ [equity st],
       history_reputation = history_reputation h @ [reputation st] \<rparr>"

text \<open>The loop of \<^verbatim>\<open>simulate\<close>; the second argument is \<^verbatim>\<open>steps - step\<close>.\<close>

fun epr_loop ::
  "rng \<Rightarrow> nat \<Rightarrow> nat \<Rightarrow> EPRSimulator_fields \<Rightarrow> EPRHistory \<Rightarrow> EPRSimulator_fields \<times> EPRHistory \<times> nat" where
  "epr_loop rnd 0 i sim h = (sim, h, i)"
| "epr_loop rnd (Suc remaining) i sim h =
     (let h' = record_state h (state sim);
          (sim', j) = epr_step rnd i sim
      in epr_loop rnd remaining j sim' h')"

text \<open>
  The states at the moments at which the loop records them (the whole state, with the
  resources that the history leaves out).
\<close>

fun recorded_states :: "rng \<Rightarrow> nat \<Rightarrow> nat \<Rightarrow> EPRSimulator_fields \<Rightarrow> EPRState list" where
  "recorded_states rnd 0 i sim = []"
| "recorded_states rnd (Suc remaining) i sim =
     (let (sim', j) = epr_step rnd i sim in state sim # recorded_states rnd remaining j sim')"

text \<open>
  A trend is \<^verbatim>\<open>xs[xs.length - 1] - xs[0]\<close>, which is \<^verbatim>\<open>NaN\<close> (here \<^term>\<open>None\<close>) on an
  empty history; every comparison with it is false.
\<close>

definition trend :: "real list \<Rightarrow> real option" where
  "trend xs = (if xs = [] then None else Some (last xs - hd xs))"

definition trend_above :: "real option \<Rightarrow> real \<Rightarrow> bool" where
  "trend_above t b = (case t of None \<Rightarrow> False | Some v \<Rightarrow> v > b)"

definition generateInsights :: "EPRState \<Rightarrow> EPRHistory \<Rightarrow> insight list" where
  "generateInsights st h =
     (let valueTrend = trend (history_value h);
          stabilityTrend = trend (history_stability h);
          equityTrend = trend (history_equity h);
          reputationTrend = trend (history_reputation h)
      in (if trend_above reputationTrend 0.1 then [RestraintBuiltReputation] else []) @
         (if trend_above stabilityTrend 0 \<and> stability st \<ge> 1.2 then [VirtuousMotion] else []) @
         (if trend_above equityTrend 0 then [EquitySafeguards] else []) @
         (if trend_above valueTrend 50 then [StrongValueCreation] else []) @
         (if stability st < 1.0 then [InstabilityWarning] else []))"

text \<open>
  \<^verbatim>\<open>EPRSimulator.simulate\<close>: the result, the object's fields after the call, and the
  number of the next draw.
\<close>

definition EPR_simulate ::
  "rng \<Rightarrow> nat \<Rightarrow> EPRSimulator_fields \<Rightarrow> EPRSimulationResult \<times> EPRSimulator_fields \<times> nat" where
  "EPR_simulate rnd i sim =
     (let (sim', h, j) =
            epr_loop rnd (steps (scenario sim)) i sim
              \<lparr> history_value = [], history_stability = [], history_equity = [],
                history_reputation = [] \<rparr>
      in (\<lparr> history = h,
            finalState = state sim',
            insights = generateInsights (state sim') h,
            result_zone = zone_of (state sim') \<rparr>, sim', j))"

definition demographicsCollapse :: EPRScenario where
  "demographicsCollapse =
     \<lparr> scenario_name = ''Demographics Collapse 2026'',
       initial = \<lparr> opt_val = Some 40, opt_stability = Some 0.85, opt_equity = Some 0.35,
                   opt_reputation = Some 0.6, opt_resources = Some 40 \<rparr>,
       steps = 20,
       scenario_zone = red \<rparr>"

definition customScenario :: "string \<Rightarrow> real \<Rightarrow> real \<Rightarrow> real \<Rightarrow> real \<Rightarrow> nat \<Rightarrow> EPRScenario" where
  "customScenario nm v s e r n =
     \<lparr> scenario_name = nm,
       initial = \<lparr> opt_val = Some v, opt_stability = Some s, opt_equity = Some e,
                   opt_reputation = Some 0.7, opt_resources = Some r \<rparr>,
       steps = n,
       scenario_zone = (if s < 1.2 then red else blue) \<rparr>"

text \<open>The declared bounds of the state variables.\<close>

definition within_bounds :: "EPRState \<Rightarrow> bool" where
  "within_bounds st =
     (0 \<le> stability st \<and> stability st \<le> 2 \<and> 0 \<le> equity st \<and> equity st \<le> 1 \<and>
      0 \<le> reputation st \<and> reputation st \<le> 1 \<and> 0 \<le> resources st \<and> resources st \<le> 300)"

definition bounded_opt :: "real option \<Rightarrow> real \<Rightarrow> real \<Rightarrow> bool" where
  "bounded_opt x lo hi = (case x of None \<Rightarrow> True | Some v \<Rightarrow> lo \<le> v \<and> v \<le> hi)"

text \<open>A valid initial configuration: every variable that is given is within its bounds.\<close>

definition valid_initial :: "EPRPartialState \<Rightarrow> bool" where
  "valid_initial ini =
     (bounded_opt (opt_stability ini) 0 2 \<and> bounded_opt (opt_equity ini) 0 1 \<and>
      bounded_opt (opt_reputation ini) 0 1 \<and> bounded_opt (opt_resources ini) 0 300)"

section \<open>ProspectTheory.ts: the behavioural choice simulator\<close>

subsection \<open>Numbers with their special values\<close>

text \<open>
  \<^verbatim>\<open>weightingFunction\<close> raises to the power \<^verbatim>\<open>gamma\<close> and then to the power
  \<^verbatim>\<open>1 / gamma\<close>, so what it returns depends on the special values of the
  \<^verbatim>\<open>number\<close> type: a division by zero gives an infinity, a power too large gives
  \<^verbatim>\<open>Infinity\<close>, a power too small gives 0, and \<^verbatim>\<open>0 / 0\<close> gives \<^verbatim>\<open>NaN\<close>. For this
  function a \<^verbatim>\<open>number\<close> is therefore a \<open>double\<close>: a real, one of the two
  infinities, or \<^verbatim>\<open>NaN\<close>. The zero is the source's \<^verbatim>\<open>+0\<close>; the sign of a zero is not
  kept.

  \<open>to_double r\<close> is the \<^verbatim>\<open>number\<close> that an operation returns when its exact result
  is \<open>r\<close>. From \<open>2^1024 - 2^970\<close> on (halfway between the largest double and
  \<open>2^1024\<close>) the result is an infinity, and up to \<open>2^-1075\<close> (half of the smallest
  positive double \<open>2^-1074\<close>, here \<open>min_double\<close>) it is 0. Between the two the exact
  result stands for the double nearest to it: the rounding to 53 bits is not part of
  the model.
\<close>

datatype double = Double real | Infinity | MinusInfinity | NaN

definition overflow_bound :: real where
  "overflow_bound = 2 ^ 1024 - 2 ^ 970"

definition underflow_bound :: real where
  "underflow_bound = 1 / 2 ^ 1075"


definition to_double :: "real \<Rightarrow> double" where
  "to_double r =
     (if overflow_bound \<le> r then Infinity
      else if r \<le> - overflow_bound then MinusInfinity
      else if \<bar>r\<bar> \<le> underflow_bound then Double 0
      else Double r)"

text \<open>The operator \<^verbatim>\<open>+\<close> on numbers.\<close>

definition double_add :: "double \<Rightarrow> double \<Rightarrow> double" where
  "double_add x y =
     (case x of
        NaN \<Rightarrow> NaN
      | Infinity \<Rightarrow> (case y of NaN \<Rightarrow> NaN | MinusInfinity \<Rightarrow> NaN | _ \<Rightarrow> Infinity)
      | MinusInfinity \<Rightarrow> (case y of NaN \<Rightarrow> NaN | Infinity \<Rightarrow> NaN | _ \<Rightarrow> MinusInfinity)
      | Double a \<Rightarrow> (case y of Double b \<Rightarrow> to_double (a + b) | _ \<Rightarrow> y))"

text \<open>
  The operator \<^verbatim>\<open>/\<close> on numbers: a nonzero number over zero is an infinity, zero over
  zero and an infinity over an infinity are \<^verbatim>\<open>NaN\<close>, a finite number over an infinity
  is 0.
\<close>

definition double_div :: "double \<Rightarrow> double \<Rightarrow> double" where
  "double_div x y =
     (case x of
        NaN \<Rightarrow> NaN
      | Infinity \<Rightarrow>
          (case y of Double b \<Rightarrow> (if b < 0 then MinusInfinity else Infinity) | _ \<Rightarrow> NaN)
      | MinusInfinity \<Rightarrow>
          (case y of Double b \<Rightarrow> (if b < 0 then Infinity else MinusInfinity) | _ \<Rightarrow> NaN)
      | Double a \<Rightarrow>
          (case y of
             NaN \<Rightarrow> NaN
           | Infinity \<Rightarrow> Double 0
           | MinusInfinity \<Rightarrow> Double 0
           | Double b \<Rightarrow>
               (if b = 0 then (if a = 0 then NaN else if 0 < a then Infinity else MinusInfinity)
                else to_double (a / b))))"

text \<open>
  \<^verbatim>\<open>Math.pow\<close> on numbers, in the order of the cases of the language definition
  (\<^verbatim>\<open>Number::exponentiate\<close>): a \<^verbatim>\<open>NaN\<close> exponent, a zero exponent, a \<^verbatim>\<open>NaN\<close>
  base, an infinite base, a zero base, an infinite exponent, a negative base with an
  exponent that is not an integer, and last the power itself.
\<close>

definition odd_integer :: "real \<Rightarrow> bool" where
  "odd_integer y = (real_of_int \<lfloor>y\<rfloor> = y \<and> odd \<lfloor>y\<rfloor>)"

definition finite_pow :: "real \<Rightarrow> real \<Rightarrow> double" where
  "finite_pow b y =
     (if b = 0 then (if 0 < y then Double 0 else Infinity)
      else if 0 < b then to_double (b powr y)
      else if real_of_int \<lfloor>y\<rfloor> \<noteq> y then NaN
      else to_double ((if odd \<lfloor>y\<rfloor> then - 1 else 1) * ((- b) powr y)))"

definition double_pow :: "double \<Rightarrow> double \<Rightarrow> double" where
  "double_pow x y =
     (case y of
        NaN \<Rightarrow> NaN
      | Double e \<Rightarrow>
          (if e = 0 then Double 1
           else case x of
             NaN \<Rightarrow> NaN
           | Infinity \<Rightarrow> (if 0 < e then Infinity else Double 0)
           | MinusInfinity \<Rightarrow>
               (if 0 < e then (if odd_integer e then MinusInfinity else Infinity) else Double 0)
           | Double b \<Rightarrow> finite_pow b e)
      | Infinity \<Rightarrow>
          (case x of
             NaN \<Rightarrow> NaN
           | Double b \<Rightarrow> (if 1 < \<bar>b\<bar> then Infinity else if \<bar>b\<bar> = 1 then NaN else Double 0)
           | _ \<Rightarrow> Infinity)
      | MinusInfinity \<Rightarrow>
          (case x of
             NaN \<Rightarrow> NaN
           | Double b \<Rightarrow> (if 1 < \<bar>b\<bar> then Double 0 else if \<bar>b\<bar> = 1 then NaN else Infinity)
           | _ \<Rightarrow> Double 0))"

subsection \<open>Configuration, agents and result\<close>

record ProspectTheoryConfig =
  alpha :: real
  beta :: real
  lambda :: real
  gamma :: real
  delta :: real
  lokLevel :: real

record ProspectTheoryPartial =
  opt_alpha :: "real option"
  opt_beta :: "real option"
  opt_lambda :: "real option"
  opt_gamma :: "real option"
  opt_delta :: "real option"
  opt_lokLevel :: "real option"

text \<open>The fields \<^verbatim>\<open>gamma\<close> and \<^verbatim>\<open>lokLevel\<close> of an agent are \<open>agent_gamma\<close> and \<open>agent_lokLevel\<close>.\<close>

record PTAgent =
  wealth :: real
  agent_gamma :: real
  agent_lokLevel :: real
  referencePoint :: real

text \<open>The fields of a \<^verbatim>\<open>ProspectTheorySimulator\<close> object.\<close>

record ProspectTheorySimulator_fields =
  config :: ProspectTheoryConfig
  pt_agents :: "PTAgent list"

record ProspectTheoryResult =
  result_valueFunction :: "real list"
  result_weightingFunction :: "double list"
  decisions :: "real list"
  result_wealth :: "real list"
  riskPropensity :: "real list"

definition ProspectTheorySimulator :: "ProspectTheoryPartial \<Rightarrow> ProspectTheorySimulator_fields" where
  "ProspectTheorySimulator cfg =
     \<lparr> config =
         \<lparr> alpha = or_default (opt_alpha cfg) 0.88,
           beta = or_default (opt_beta cfg) 0.88,
           lambda = or_default (opt_lambda cfg) 2.25,
           gamma = or_default (opt_gamma cfg) 0.61,
           delta = or_default (opt_delta cfg) 0.69,
           lokLevel = or_default (opt_lokLevel cfg) 0 \<rparr>,
       pt_agents = [] \<rparr>"

definition initialize :: "ProspectTheorySimulator_fields \<Rightarrow> nat \<Rightarrow> real \<Rightarrow> ProspectTheorySimulator_fields" where
  "initialize sim nAgents initialWealth =
     (let half = nAgents div 2;
          knowledgeable = replicate half
            \<lparr> wealth = initialWealth, agent_gamma = gamma (config sim), agent_lokLevel = 0,
              referencePoint = 0 \<rparr>;
          lokAgents = replicate (nAgents - half)
            \<lparr> wealth = initialWealth, agent_gamma = 0.3,
              agent_lokLevel = (if lokLevel (config sim) = 0 then 1.0 else lokLevel (config sim)),
              referencePoint = 0 \<rparr>
      in sim\<lparr> pt_agents := knowledgeable @ lokAgents \<rparr>)"

text \<open>
  \<^verbatim>\<open>Math.pow\<close> on the reals, as \<^verbatim>\<open>valueFunction\<close> uses it. The source calls it with a
  base that is never negative; for a zero base and a negative exponent the source gives
  \<^verbatim>\<open>Infinity\<close>, which has no counterpart here.
\<close>

definition Math_pow :: "real \<Rightarrow> real \<Rightarrow> real" where
  "Math_pow x y = (if x = 0 \<and> y = 0 then 1 else x powr y)"

definition valueFunction :: "ProspectTheoryConfig \<Rightarrow> real \<Rightarrow> real" where
  "valueFunction cfg x =
     (if x \<ge> 0 then Math_pow x (alpha cfg) else - lambda cfg * Math_pow (- x) (beta cfg))"

subsection \<open>The weighting function\<close>

text \<open>
  \<^verbatim>\<open>weightingFunction\<close>, with its locals \<^verbatim>\<open>num\<close> and \<^verbatim>\<open>den\<close> and the exponent
  \<^verbatim>\<open>1 / gamma\<close> of \<^verbatim>\<open>den\<close>. The two arguments are finite numbers.
\<close>

definition weighting_exponent :: "real \<Rightarrow> double" where
  "weighting_exponent g = double_div (Double 1) (Double g)"

definition weighting_num :: "real \<Rightarrow> real \<Rightarrow> double" where
  "weighting_num p g = double_pow (Double p) (Double g)"

definition weighting_den :: "real \<Rightarrow> real \<Rightarrow> double" where
  "weighting_den p g =
     double_pow (double_add (double_pow (Double p) (Double g)) (double_pow (Double (1 - p)) (Double g)))
       (weighting_exponent g)"

definition weightingFunction :: "real \<Rightarrow> real \<Rightarrow> double" where
  "weightingFunction p g =
     (if p \<le> 0 then Double 0
      else if p \<ge> 1 then Double 1
      else double_div (weighting_num p g) (weighting_den p g))"

definition calculateValueFunction :: "ProspectTheoryConfig \<Rightarrow> real list" where
  "calculateValueFunction cfg = map (\<lambda>x. valueFunction cfg (real_of_int x)) [-50..50]"

definition calculateWeightingFunction :: "ProspectTheoryConfig \<Rightarrow> double list" where
  "calculateWeightingFunction cfg =
     map (\<lambda>i. weightingFunction (real i / 100) (gamma cfg)) [0..<101]"

subsection \<open>The decisions of the agents\<close>

text \<open>
  The simulation itself is embedded over the reals, with exact arithmetic, as the other
  engines are. \<open>weightingFunction_exact\<close> is \<^verbatim>\<open>weightingFunction\<close> in that arithmetic;
  the value that it gives to \<^verbatim>\<open>wP\<close> enters only the probability of choosing the
  gamble, and no amount added to an agent's wealth.
\<close>

definition weightingFunction_exact :: "real \<Rightarrow> real \<Rightarrow> real" where
  "weightingFunction_exact p g =
     (if p \<le> 0 then 0
      else if p \<ge> 1 then 1
      else Math_pow p g / Math_pow (Math_pow p g + Math_pow (1 - p) g) (1 / g))"

definition average :: "real list \<Rightarrow> real" where
  "average values = sum_list values / real (length values)"

record decision =
  choice :: real
  riskTaken :: real

text \<open>
  \<^verbatim>\<open>simulateAgentDecision\<close>, in two parts. The first evaluates the prospects, up to
  \<^verbatim>\<open>probChooseGamble\<close>; its draws are those of the source, in the source's order: the
  perceived probability (when the configured \<^verbatim>\<open>lokLevel\<close> is positive), then the
  reference noise (when the agent's is). It returns the probability and the number of
  the next draw.
\<close>

definition probChooseGamble :: "ProspectTheoryConfig \<Rightarrow> rng \<Rightarrow> nat \<Rightarrow> PTAgent \<Rightarrow> real \<times> nat" where
  "probChooseGamble cfg rnd i agent =
     (let pTrue = 0.20;
          gambleHigh = 300;
          sureGain = 50;
          pPerceived = (if lokLevel cfg > 0
                        then max 0.01 (min 0.99 (pTrue + (rnd i - 0.5) * 0.3 * agent_lokLevel agent))
                        else pTrue);
          i1 = (if lokLevel cfg > 0 then Suc i else i);
          refNoise = (if agent_lokLevel agent > 0
                      then (rnd i1 - 0.5) * 200 * agent_lokLevel agent else 0);
          i2 = (if agent_lokLevel agent > 0 then Suc i1 else i1);
          refPoint = referencePoint agent + refNoise;
          wP = weightingFunction_exact pPerceived (agent_gamma agent);
          vGamble = wP * valueFunction cfg (gambleHigh - refPoint);
          vSure = valueFunction cfg (sureGain - refPoint);
          temperature = 1.0 + 10.0 * agent_lokLevel agent;
          logit = (vGamble - vSure) / temperature
      in (1 / (1 + exp (- max (-20) (min 20 logit))), i2))"

text \<open>
  The second part draws the choice and, when the gamble is chosen, its outcome, and
  updates the agent's wealth. The result is the agent after the decision, the returned
  record and the number of the next draw.
\<close>

definition simulateAgentDecision ::
  "ProspectTheoryConfig \<Rightarrow> rng \<Rightarrow> nat \<Rightarrow> PTAgent \<Rightarrow> PTAgent \<times> decision \<times> nat" where
  "simulateAgentDecision cfg rnd i agent =
     (let pTrue = 0.20;
          gambleHigh = 300;
          sureGain = 50;
          (prob, i2) = probChooseGamble cfg rnd i agent;
          chose = (rnd i2 < prob);
          i3 = Suc i2
      in if chose
         then (let won = (rnd i3 < pTrue)
               in (agent\<lparr> wealth := wealth agent + (if won then gambleHigh else 0) \<rparr>,
                   \<lparr> choice = 1, riskTaken = prob \<rparr>, Suc i3))
         else (agent\<lparr> wealth := wealth agent + sureGain \<rparr>,
               \<lparr> choice = 0, riskTaken = 0 \<rparr>, i3))"

text \<open>The loop over the agents within one step.\<close>

fun agents_decide ::
  "ProspectTheoryConfig \<Rightarrow> rng \<Rightarrow> nat \<Rightarrow> PTAgent list \<Rightarrow> PTAgent list \<times> decision list \<times> nat" where
  "agents_decide cfg rnd i [] = ([], [], i)"
| "agents_decide cfg rnd i (agent # rest) =
     (let (agent', d, j) = simulateAgentDecision cfg rnd i agent;
          (rest', ds, k) = agents_decide cfg rnd j rest
      in (agent' # rest', d # ds, k))"

record pt_series =
  series_wealth :: "real list"
  series_risk :: "real list"
  series_decisions :: "real list"

text \<open>The loop of \<^verbatim>\<open>simulate\<close>; the third argument is \<^verbatim>\<open>steps - step\<close>.\<close>

fun pt_loop ::
  "ProspectTheoryConfig \<Rightarrow> rng \<Rightarrow> nat \<Rightarrow> nat \<Rightarrow> PTAgent list \<Rightarrow> pt_series \<Rightarrow> PTAgent list \<times> pt_series \<times> nat" where
  "pt_loop cfg rnd 0 i ags ser = (ags, ser, i)"
| "pt_loop cfg rnd (Suc remaining) i ags ser =
     (let (ags', ds, j) = agents_decide cfg rnd i ags;
          ser' = \<lparr> series_wealth = series_wealth ser @ [average (map wealth ags')],
                   series_risk = series_risk ser @ [average (map riskTaken ds)],
                   series_decisions = series_decisions ser @ [average (map choice ds)] \<rparr>
      in pt_loop cfg rnd remaining j ags' ser')"

text \<open>
  \<^verbatim>\<open>ProspectTheorySimulator.simulate\<close>: the result, the object's fields after the call
  and the number of the next draw.
\<close>

definition PT_simulate ::
  "rng \<Rightarrow> nat \<Rightarrow> ProspectTheorySimulator_fields \<Rightarrow> nat \<Rightarrow>
   ProspectTheoryResult \<times> ProspectTheorySimulator_fields \<times> nat" where
  "PT_simulate rnd i sim nsteps =
     (let sim0 = (if length (pt_agents sim) = 0 then initialize sim 500 1000 else sim);
          (ags, ser, j) = pt_loop (config sim0) rnd nsteps i (pt_agents sim0)
             \<lparr> series_wealth = [], series_risk = [], series_decisions = [] \<rparr>
      in (\<lparr> result_valueFunction = calculateValueFunction (config sim0),
            result_weightingFunction = calculateWeightingFunction (config sim0),
            decisions = series_decisions ser,
            result_wealth = series_wealth ser,
            riskPropensity = series_risk ser \<rparr>,
          sim0\<lparr> pt_agents := ags \<rparr>, j))"

section \<open>EPR.ts, second part: the evolutionary optimizer\<close>

record Individual =
  genes :: "real list"
  fitness :: real

text \<open>The diversity is \<^verbatim>\<open>NaN\<close> (here \<^term>\<open>None\<close>) when the gene vectors are empty.\<close>

record GenerationData =
  generation :: nat
  avgFitness :: real
  bestFitness :: real
  diversity :: "real option"

record EvolutionaryConfig =
  populationSize :: nat
  generations :: nat
  mutationRate :: real
  selectionPressure :: real
  fitnessFunction :: string

record EvolutionaryPartial =
  opt_populationSize :: "nat option"
  opt_generations :: "nat option"
  opt_mutationRate :: "real option"
  opt_selectionPressure :: "real option"
  opt_fitnessFunction :: "string option"

text \<open>The fields of an \<^verbatim>\<open>EvolutionarySimulator\<close> object.\<close>

record EvolutionarySimulator_fields =
  evo_config :: EvolutionaryConfig
  population :: "Individual list"
  generationHistory :: "GenerationData list"

record EvolutionaryResult =
  result_generations :: "GenerationData list"
  finalFitness :: real
  bestSolution :: "real list"
  result_convergence :: real

definition EvolutionarySimulator :: "EvolutionaryPartial \<Rightarrow> EvolutionarySimulator_fields" where
  "EvolutionarySimulator cfg =
     \<lparr> evo_config =
         \<lparr> populationSize = or_default (opt_populationSize cfg) 50,
           generations = or_default (opt_generations cfg) 100,
           mutationRate = or_default (opt_mutationRate cfg) 0.1,
           selectionPressure = or_default (opt_selectionPressure cfg) 0.2,
           fitnessFunction = or_default (opt_fitnessFunction cfg) ''default'' \<rparr>,
       population = [],
       generationHistory = [] \<rparr>"

text \<open>
  \<^verbatim>\<open>initialize\<close> of the optimizer: one draw per gene, individual after individual.
\<close>

definition evo_initialize ::
  "rng \<Rightarrow> nat \<Rightarrow> EvolutionarySimulator_fields \<Rightarrow> nat \<Rightarrow> EvolutionarySimulator_fields \<times> nat" where
  "evo_initialize rnd i sim geneLength =
     (sim\<lparr> population :=
         map (\<lambda>p. \<lparr> genes = map (\<lambda>g. rnd (i + p * geneLength + g)) [0..<geneLength],
                    fitness = 0 \<rparr>)
           [0..<populationSize (evo_config sim)] \<rparr>,
      i + populationSize (evo_config sim) * geneLength)"

definition defaultFitnessFunction :: "real list \<Rightarrow> real" where
  "defaultFitnessFunction gs = foldl (\<lambda>sum gene. sum + gene * gene) 0 gs"

text \<open>The fitness callback, when given, is taken as a pure function of the genes.\<close>

definition evaluateFitness :: "(real list \<Rightarrow> real) option \<Rightarrow> Individual list \<Rightarrow> Individual list" where
  "evaluateFitness fitnessCallback pop =
     map (\<lambda>individual.
            individual\<lparr> fitness :=
              (case fitnessCallback of
                 Some f \<Rightarrow> f (genes individual)
               | None \<Rightarrow> defaultFitnessFunction (genes individual)) \<rparr>) pop"

text \<open>
  \<^verbatim>\<open>population.sort((a, b) => b.fitness - a.fitness)\<close>: descending by fitness, and
  stable, as the sort of the language is.
\<close>

definition sort_population :: "Individual list \<Rightarrow> Individual list" where
  "sort_population pop = sort_key (\<lambda>individual. - fitness individual) pop"

definition getAverageFitness :: "Individual list \<Rightarrow> real" where
  "getAverageFitness pop = foldl (\<lambda>acc ind. acc + fitness ind) 0 pop / real (length pop)"

definition calculateVariance :: "real list \<Rightarrow> real" where
  "calculateVariance values =
     (let mean = foldl (+) 0 values / real (length values)
      in foldl (\<lambda>acc v. acc + (v - mean) ^ 2) 0 values / real (length values))"

text \<open>
  All individuals of a population have gene vectors of one length (\<^verbatim>\<open>initialize\<close> and
  \<^verbatim>\<open>crossover\<close> keep it so), hence \<^verbatim>\<open>ind.genes[i]\<close> is within range below.
\<close>

definition calculateDiversity :: "Individual list \<Rightarrow> real option" where
  "calculateDiversity pop =
     (case pop of
        [] \<Rightarrow> Some 0
      | first # rest \<Rightarrow>
          (let geneLength = length (genes first);
               totalVariance =
                 foldl (\<lambda>total i. total + calculateVariance (map (\<lambda>ind. genes ind ! i) pop))
                   0 [0..<geneLength]
           in if geneLength = 0 then None else Some (totalVariance / real geneLength)))"

text \<open>
  \<^verbatim>\<open>tournamentSelection\<close> with its default size 3: three draws. A draw that falls
  outside the population gives \<^verbatim>\<open>undefined\<close>, whose \<^verbatim>\<open>fitness\<close> is then read: a
  \<^verbatim>\<open>TypeError\<close>.
\<close>

definition tournamentSelection :: "rng \<Rightarrow> nat \<Rightarrow> Individual list \<Rightarrow> error + Individual \<times> nat" where
  "tournamentSelection rnd i pop =
     (case nth_opt pop (random_index (rnd i) (length pop)) of
        None \<Rightarrow> Inl TypeError
      | Some best0 \<Rightarrow>
          (case nth_opt pop (random_index (rnd (i + 1)) (length pop)) of
             None \<Rightarrow> Inl TypeError
           | Some candidate1 \<Rightarrow>
               (let best1 = (if fitness candidate1 > fitness best0 then candidate1 else best0) in
                case nth_opt pop (random_index (rnd (i + 2)) (length pop)) of
                  None \<Rightarrow> Inl TypeError
                | Some candidate2 \<Rightarrow>
                    Inr (if fitness candidate2 > fitness best1 then candidate2 else best1, i + 3))))"

definition crossover :: "rng \<Rightarrow> nat \<Rightarrow> Individual \<Rightarrow> Individual \<Rightarrow> Individual \<times> nat" where
  "crossover rnd i parent1 parent2 =
     (let crossoverPoint = random_index (rnd i) (length (genes parent1))
      in (\<lparr> genes = map (\<lambda>k. if k < crossoverPoint then genes parent1 ! k else genes parent2 ! k)
                       [0..<length (genes parent1)],
            fitness = 0 \<rparr>, Suc i))"

text \<open>\<^verbatim>\<open>mutate\<close>: one draw per gene, and a second one for a gene that is mutated.\<close>

fun mutate_genes :: "rng \<Rightarrow> nat \<Rightarrow> real \<Rightarrow> real list \<Rightarrow> real list \<times> nat" where
  "mutate_genes rnd i rate [] = ([], i)"
| "mutate_genes rnd i rate (g # gs) =
     (if rnd i < rate
      then (let (gs', j) = mutate_genes rnd (i + 2) rate gs
            in (max 0 (min 1 (g + (rnd (i + 1) - 0.5) * 0.2)) # gs', j))
      else (let (gs', j) = mutate_genes rnd (i + 1) rate gs in (g # gs', j)))"

definition mutate :: "rng \<Rightarrow> nat \<Rightarrow> Individual \<Rightarrow> real \<Rightarrow> Individual \<times> nat" where
  "mutate rnd i individual rate =
     (let (gs, j) = mutate_genes rnd i rate (genes individual) in (individual\<lparr> genes := gs \<rparr>, j))"

text \<open>
  \<^verbatim>\<open>population.slice(0, eliteCount)\<close>; a negative end counts from the end of the array.
\<close>

definition slice_from_start :: "'a list \<Rightarrow> int \<Rightarrow> 'a list" where
  "slice_from_start xs e = (if e < 0 then take (nat (int (length xs) + e)) xs else take (nat e) xs)"

definition eliteCount :: "EvolutionaryConfig \<Rightarrow> int" where
  "eliteCount cfg = \<lfloor>real (populationSize cfg) * selectionPressure cfg\<rfloor>"

text \<open>The \<^verbatim>\<open>while\<close> loop of \<^verbatim>\<open>evolveGeneration\<close>.\<close>

function fill_population ::
  "EvolutionaryConfig \<Rightarrow> rng \<Rightarrow> nat \<Rightarrow> Individual list \<Rightarrow> Individual list \<Rightarrow> error + Individual list \<times> nat" where
  "fill_population cfg rnd i pop newPopulation =
     (if length newPopulation < populationSize cfg then
        (case tournamentSelection rnd i pop of
           Inl e \<Rightarrow> Inl e
         | Inr (parent1, i1) \<Rightarrow>
             (case tournamentSelection rnd i1 pop of
                Inl e \<Rightarrow> Inl e
              | Inr (parent2, i2) \<Rightarrow>
                  (let (child, i3) = crossover rnd i2 parent1 parent2;
                       (mutated, i4) = mutate rnd i3 child (mutationRate cfg)
                   in fill_population cfg rnd i4 pop (newPopulation @ [mutated]))))
      else Inr (newPopulation, i))"
  by pat_completeness auto
termination
  by (relation "measure (\<lambda>(cfg, rnd, i, pop, newPopulation). populationSize cfg - length newPopulation)")
    auto

declare fill_population.simps [simp del]

definition evolveGeneration ::
  "EvolutionaryConfig \<Rightarrow> rng \<Rightarrow> nat \<Rightarrow> Individual list \<Rightarrow> error + Individual list \<times> nat" where
  "evolveGeneration cfg rnd i pop =
     fill_population cfg rnd i pop (slice_from_start pop (eliteCount cfg))"

text \<open>
  One pass of the loop of \<^verbatim>\<open>evolve\<close>. Reading \<^verbatim>\<open>population[0].fitness\<close> of an empty
  population throws.
\<close>

definition evolve_step ::
  "(real list \<Rightarrow> real) option \<Rightarrow> rng \<Rightarrow> nat \<Rightarrow> nat \<Rightarrow> EvolutionarySimulator_fields \<Rightarrow>
   error + EvolutionarySimulator_fields \<times> nat" where
  "evolve_step fitnessCallback rnd gen i sim =
     (let pop = sort_population (evaluateFitness fitnessCallback (population sim)) in
      case pop of
        [] \<Rightarrow> Inl TypeError
      | best # rest \<Rightarrow>
          (let generationData =
                 \<lparr> generation = gen,
                   avgFitness = getAverageFitness pop,
                   bestFitness = fitness best,
                   diversity = calculateDiversity pop \<rparr>
           in case evolveGeneration (evo_config sim) rnd i pop of
                Inl e \<Rightarrow> Inl e
              | Inr (newPopulation, j) \<Rightarrow>
                  Inr (sim\<lparr> population := newPopulation,
                            generationHistory := generationHistory sim @ [generationData] \<rparr>, j)))"

text \<open>The loop; the third argument is \<^verbatim>\<open>generations - gen\<close>, the fourth is \<^verbatim>\<open>gen\<close>.\<close>

fun evolve_loop ::
  "(real list \<Rightarrow> real) option \<Rightarrow> rng \<Rightarrow> nat \<Rightarrow> nat \<Rightarrow> nat \<Rightarrow> EvolutionarySimulator_fields \<Rightarrow>
   error + EvolutionarySimulator_fields \<times> nat" where
  "evolve_loop fitnessCallback rnd 0 gen i sim = Inr (sim, i)"
| "evolve_loop fitnessCallback rnd (Suc remaining) gen i sim =
     (case evolve_step fitnessCallback rnd gen i sim of
        Inl e \<Rightarrow> Inl e
      | Inr (sim', j) \<Rightarrow> evolve_loop fitnessCallback rnd remaining (Suc gen) j sim')"

definition evo_calculateConvergence :: "GenerationData list \<Rightarrow> real" where
  "evo_calculateConvergence hist =
     (if length hist < 2 then 0
      else
        (let recent = drop (length hist - 10) hist;
             bestVariance = calculateVariance (map bestFitness recent);
             avgVariance = calculateVariance (map avgFitness recent)
         in max 0 (1 - (bestVariance + avgVariance) / 100)))"

text \<open>
  \<^verbatim>\<open>EvolutionarySimulator.evolve\<close>: the result, the object's fields after the call and
  the number of the next draw, or the exception.
\<close>

definition evolve ::
  "(real list \<Rightarrow> real) option \<Rightarrow> rng \<Rightarrow> nat \<Rightarrow> EvolutionarySimulator_fields \<Rightarrow>
   error + EvolutionaryResult \<times> EvolutionarySimulator_fields \<times> nat" where
  "evolve fitnessCallback rnd i sim =
     (let geneLength =
            (case population sim of
               [] \<Rightarrow> 5
             | first # rest \<Rightarrow> if length (genes first) = 0 then 5 else length (genes first));
          (sim0, i0) = (if length (population sim) = 0 then evo_initialize rnd i sim geneLength
                        else (sim, i))
      in case evolve_loop fitnessCallback rnd (generations (evo_config sim0)) 0 i0 sim0 of
           Inl e \<Rightarrow> Inl e
         | Inr (sim1, j) \<Rightarrow>
             (let pop = sort_population (evaluateFitness fitnessCallback (population sim1)) in
              case pop of
                [] \<Rightarrow> Inl TypeError
              | best # rest \<Rightarrow>
                  Inr (\<lparr> result_generations = generationHistory sim1,
                         finalFitness = fitness best,
                         bestSolution = genes best,
                         result_convergence = evo_calculateConvergence (generationHistory sim1) \<rparr>,
                       sim1\<lparr> population := pop \<rparr>, j)))"

section \<open>Properties of the equilibrium solver\<close>

lemma random_index_less: 
  assumes "0 \<le> r" "r < 1" "0 < n" shows "random_index r n < n"
proof -
  have "r * real n < real n" using assms by simp
  then have "\<lfloor>r * real n\<rfloor> < int n" by (simp add: floor_less_iff)
  then show ?thesis unfolding random_index_def using assms by linarith
qed

lemma array_length_nat: "n < 2 ^ 32 \<Longrightarrow> array_length (real n) = Inr n"
proof -
  assume "n < 2 ^ 32"
  then have "real n < real (2 ^ 32)" by (simp only: of_nat_less_iff)
  then show ?thesis by (simp add: array_length_def)
qed

lemma array_length_negative: "n < 0 \<Longrightarrow> array_length n = Inl RangeError"
  by (simp add: array_length_def)

lemma array_length_fraction: "real_of_int \<lfloor>n\<rfloor> \<noteq> n \<Longrightarrow> array_length n = Inl RangeError"
  by (simp add: array_length_def)

lemma array_length_2: "array_length 2 = Inr 2"
  using array_length_nat[of 2] by simp

lemma player_count_nat: "players cfg = real n \<Longrightarrow> player_count cfg = n"
  by (simp add: player_count_def)

lemma pd_cfg_simps:
  "players (prisonersDilemma_config its) = 2"
  "strategies (prisonersDilemma_config its) = [''Cooperate'', ''Defect'']"
  "payoffs (prisonersDilemma_config its) = [[[3, 3], [0, 5]], [[5, 0], [1, 1]]]"
  "iterations (prisonersDilemma_config its) = its"
  "player_count (prisonersDilemma_config its) = 2"
  by (simp_all add: prisonersDilemma_config_def GameTheorySimulator_def or_default_def
      player_count_def)

lemma upt2: "[0..<2] = [0, Suc 0]"
  by (simp add: upt_rec)

lemma pd_round:
  assumes "a < 2" "b < 2"
  shows "best_response_round (prisonersDilemma_config its) [a, b] = Inr [1, 1]"
proof -
  from assms have "(a = 0 \<or> a = 1) \<and> (b = 0 \<or> b = 1)" by auto
  then show ?thesis
    by (auto simp add: best_response_round_def findBestResponse_def getPayoff_def nth_opt_def
        pd_cfg_simps upt2)
qed

lemma pd_initial:
  assumes "valid_rng rnd"
  shows "\<exists>a b. a < 2 \<and> b < 2 \<and> initial_strategies (prisonersDilemma_config its) rnd = [a, b]"
  using assms random_index_less[of "rnd 0" "Suc (Suc 0)"] random_index_less[of "rnd (Suc 0)" "Suc (Suc 0)"]
  by (simp add: initial_strategies_def pd_cfg_simps upt2 valid_rng_def numeral_2_eq_2)

lemma conv_same: "calculateConvergence (h @ [[1, 1], [1, 1]]) = Some 1"
  by (simp add: calculateConvergence_def count_matches_def nth_opt_def upt2 nth_append)

lemma pd_fixed_rounds:
  assumes "playerStrategies run = [1, 1]" "strategyHistory run = h @ [[1, 1]]"
  shows "\<exists>run'. simulate_rounds (prisonersDilemma_config its) n run = Inr run' \<and>
     playerStrategies run' = [1, 1] \<and>
     length (convergence_log run') \<le> length (convergence_log run) + 1"
proof (cases n)
  case 0 then show ?thesis using assms by simp
next
  case (Suc m)
  then show ?thesis using assms pd_round[of 1 1 its] conv_same[of h]
    by (simp add: converged_enough_def Let_def)
qed

lemma pd_fixed_rounds2:
  assumes "playerStrategies run = [1, 1]"
  shows "\<exists>run'. simulate_rounds (prisonersDilemma_config its) n run = Inr run' \<and>
     playerStrategies run' = [1, 1] \<and>
     length (convergence_log run') \<le> length (convergence_log run) + 2"
proof (cases n)
  case 0 then show ?thesis using assms by simp
next
  case (Suc m)
  let ?run' = "\<lparr> playerStrategies = [1, 1],
                convergence_log = convergence_log run @ [calculateConvergence (strategyHistory run @ [[1, 1]])],
                strategyHistory = strategyHistory run @ [[1, 1]] \<rparr>"
  from pd_fixed_rounds[of ?run' "strategyHistory run" its m]
  obtain r2 where "simulate_rounds (prisonersDilemma_config its) m ?run' = Inr r2"
     "playerStrategies r2 = [1, 1]" "length (convergence_log r2) \<le> length (convergence_log run) + 2"
    by auto
  then show ?thesis using Suc assms pd_round[of 1 1 its]
    by (auto simp add: Let_def)
qed

lemma pd_payoffs: "calculatePayoffs (prisonersDilemma_config its) [1, 1] = Inr [Some 1, Some 1]"
  by (simp add: calculatePayoffs_def getPayoff_def nth_opt_def pd_cfg_simps upt2 array_length_2)

text \<open>
  C3. For the Prisoner's Dilemma table, from every initial profile that the random
  draws can give and every positive cap on the rounds, the first round already ends in
  Defect/Defect, the run stops after at most three rounds, and the result has the
  equilibrium Defect/Defect with the payoffs \<open>(1, 1)\<close>.
\<close>

theorem prisonersDilemma_reaches_defect:
  assumes "valid_rng rnd" and "0 < its"
  shows "best_response_round (prisonersDilemma_config its)
           (initial_strategies (prisonersDilemma_config its) rnd) = Inr [1, 1] \<and>
         (\<exists>r. prisonersDilemma its rnd = Inr r \<and>
              equilibrium r = [Some ''Defect'', Some ''Defect''] \<and>
              result_payoffs r = [Some 1, Some 1] \<and>
              result_iterations r \<le> 3)"
proof -
  let ?cfg = "prisonersDilemma_config its"
  obtain a b where ab: "a < 2" "b < 2" "initial_strategies ?cfg rnd = [a, b]"
    using pd_initial[OF assms(1)] by blast
  obtain m where m: "its = Suc m" using assms(2) by (cases its) auto
  let ?run0 = "\<lparr> playerStrategies = [a, b], convergence_log = [], strategyHistory = [] \<rparr>"
  let ?run1 = "\<lparr> playerStrategies = [1, 1], convergence_log = [Some 0], strategyHistory = [[a, b]] \<rparr>"
  have first: "simulate_rounds ?cfg (Suc m) ?run0 = simulate_rounds ?cfg m ?run1"
    using pd_round[OF ab(1,2), of its]
    by (simp add: Let_def calculateConvergence_def converged_enough_def)
  obtain run' where run': "simulate_rounds ?cfg m ?run1 = Inr run'"
      "playerStrategies run' = [1, 1]" "length (convergence_log run') \<le> 3"
    using pd_fixed_rounds2[of ?run1 its m] by auto
  have "GameTheory_simulate_from ?cfg [a, b] =
          Inr \<lparr> equilibrium = [Some ''Defect'', Some ''Defect''],
                result_payoffs = [Some 1, Some 1],
                convergence = convergence_log run',
                result_iterations = length (convergence_log run') \<rparr>"
    using first run' pd_payoffs[of its] m
    by (simp add: GameTheory_simulate_from_def pd_cfg_simps nth_opt_def)
  then show ?thesis
    using ab run'(3) pd_round[OF ab(1,2), of its]
    by (simp add: prisonersDilemma_def GameTheory_simulate_def pd_cfg_simps array_length_2)
qed

theorem prisonersDilemma_reaches_defect_witness:
  "valid_rng (\<lambda>i. 0) \<and> (0::nat) < 100 \<and>
   best_response_round (prisonersDilemma_config 100)
           (initial_strategies (prisonersDilemma_config 100) (\<lambda>i. 0)) = Inr [1, 1] \<and>
         (\<exists>r. prisonersDilemma 100 (\<lambda>i. 0) = Inr r \<and>
              equilibrium r = [Some ''Defect'', Some ''Defect''] \<and>
              result_payoffs r = [Some 1, Some 1] \<and>
              result_iterations r \<le> 3)"
proof -
  have v: "valid_rng (\<lambda>i. 0)" by (simp add: valid_rng_def)
  have p: "(0::nat) < 100" by simp
  show ?thesis using v p prisonersDilemma_reaches_defect[OF v p] by blast
qed

lemma coord_cfg_simps:
  "players (coordinationGame_config its) = 2"
  "strategies (coordinationGame_config its) = [''Strategy A'', ''Strategy B'']"
  "payoffs (coordinationGame_config its) = [[[2, 2], [0, 0]], [[0, 0], [1, 1]]]"
  "iterations (coordinationGame_config its) = its"
  "player_count (coordinationGame_config its) = 2"
  by (simp_all add: coordinationGame_config_def GameTheorySimulator_def or_default_def
      player_count_def)

lemma coord_sequential:
  "best_response_round (coordinationGame_config 100) [0, 1] = Inr [1, 1]"
  by (simp add: best_response_round_def findBestResponse_def getPayoff_def nth_opt_def
        coord_cfg_simps upt2)

lemma coord_simultaneous:
  "simultaneous_round (coordinationGame_config 100) [0, 1] = Inr [1, 0]"
  by (simp add: simultaneous_round_def findBestResponse_def getPayoff_def nth_opt_def
        coord_cfg_simps upt2)

text \<open>
  C1 as stated fails: in the coordination game, from the profile \<open>(0, 1)\<close>, the round
  of the source ends in \<open>(1, 1)\<close>, while best responses computed against the profile
  at the start of the round give \<open>(1, 0)\<close>.
\<close>

theorem round_not_simultaneous:
  "best_response_round (coordinationGame_config 100) [0, 1] = Inr [1, 1] \<and>
   simultaneous_round (coordinationGame_config 100) [0, 1] = Inr [1, 0] \<and>
   best_response_round (coordinationGame_config 100) [0, 1] \<noteq>
     simultaneous_round (coordinationGame_config 100) [0, 1]"
  using coord_sequential coord_simultaneous by simp

lemma update_players_length:
  "update_players cfg ps cur = Inr s' \<Longrightarrow> length s' = length cur"
  by (induction ps arbitrary: cur) (auto split: sum.splits)

lemma update_players_upt:
  assumes "update_players cfg [i..<n] cur = Inr s'" "length cur = n"
  shows "(\<forall>p<i. s' ! p = cur ! p) \<and>
         (\<forall>p. i \<le> p \<and> p < n \<longrightarrow> findBestResponse cfg p (take p s' @ drop p cur) = Inr (s' ! p))"
  using assms
proof (induction "n - i" arbitrary: i cur)
  case 0
  then show ?case by auto
next
  case (Suc d)
  then have lt: "i < n" by simp
  then have upt: "[i..<n] = i # [Suc i..<n]" by (simp add: upt_conv_Cons)
  from Suc.prems(1) upt obtain b where b: "findBestResponse cfg i cur = Inr b"
    and rest: "update_players cfg [Suc i..<n] (cur[i := b]) = Inr s'"
    by (auto split: sum.splits)
  have d: "d = n - Suc i" using Suc.hyps(2) by simp
  have len: "length (cur[i := b]) = n" using Suc.prems(2) by simp
  note IH = Suc.hyps(1)[OF d rest len]
  have len': "length s' = n" using update_players_length[OF rest] len by simp
  have low: "\<forall>p<i. s' ! p = cur ! p" using IH by auto
  have at_i: "s' ! i = b" using IH lt Suc.prems(2) by auto
  have "take i s' = take i cur"
    using low len' Suc.prems(2) lt by (auto intro: nth_take_lemma)
  then have "take i s' @ drop i cur = cur" by simp
  then have here: "findBestResponse cfg i (take i s' @ drop i cur) = Inr (s' ! i)"
    using b at_i by simp
  have above: "findBestResponse cfg p (take p s' @ drop p cur) = Inr (s' ! p)"
    if "Suc i \<le> p" "p < n" for p
  proof -
    have "drop p (cur[i := b]) = drop p cur" using that by simp
    then show ?thesis using IH that by auto
  qed
  show ?case using low here above
    by (metis Suc_leI le_neq_implies_less)
qed


lemma best_response_loop_upt:
  assumes "\<forall>j<k. getPayoff cfg p (cur[p := j]) = Inr (Some (f j))"
    and "i \<le> k"
    and "if i = 0 then best = (0, NegInfinity)
         else fst best < i \<and> snd best = Finite (f (fst best)) \<and>
              (\<forall>j<i. f j \<le> f (fst best)) \<and> (\<forall>j<fst best. f j < f (fst best))"
  shows "\<exists>b. best_response_loop cfg p cur [i..<k] best = Inr (b, if k = 0 then NegInfinity else Finite (f b)) \<and>
             (k = 0 \<or> b < k) \<and> (\<forall>j<k. f j \<le> f b) \<and> (\<forall>j<b. f j < f b)"
  using assms(2,3)
proof (induction "k - i" arbitrary: i best)
  case 0
  then have "i = k" by simp
  then show ?case using 0 by (cases best) (auto split: if_splits)
next
  case (Suc d)
  then have lt: "i < k" by simp
  then have upt: "[i..<k] = i # [Suc i..<k]" by (simp add: upt_conv_Cons)
  have pay: "getPayoff cfg p (cur[p := i]) = Inr (Some (f i))" using assms(1) lt by simp
  let ?best' = "if exceeds (Some (f i)) (snd best) then (i, Finite (f i)) else best"
  have step: "best_response_loop cfg p cur [i..<k] best = best_response_loop cfg p cur [Suc i..<k] ?best'"
    using upt pay by simp
  have d: "d = k - Suc i" using Suc.hyps(2) by simp
  have inv: "if Suc i = 0 then ?best' = (0, NegInfinity)
         else fst ?best' < Suc i \<and> snd ?best' = Finite (f (fst ?best')) \<and>
              (\<forall>j<Suc i. f j \<le> f (fst ?best')) \<and> (\<forall>j<fst ?best'. f j < f (fst ?best'))"
  proof (cases "i = 0")
    case True
    then show ?thesis using Suc.prems(2) by simp
  next
    case False
    then have old: "fst best < i" "snd best = Finite (f (fst best))"
      "\<forall>j<i. f j \<le> f (fst best)" "\<forall>j<fst best. f j < f (fst best)"
      using Suc.prems(2) by auto
    show ?thesis
    proof (cases "f (fst best) < f i")
      case True
      then show ?thesis using old by (auto simp: less_Suc_eq intro: le_less_trans)
    next
      case False
      then show ?thesis using old by (auto simp: less_Suc_eq)
    qed
  qed
  from Suc.hyps(1)[OF d _ inv] lt step show ?case by auto
qed

lemma findBestResponse_lowest_maximiser:
  assumes "\<forall>j<length (strategies cfg). getPayoff cfg p (cur[p := j]) = Inr (Some (f j))"
    and "0 < length (strategies cfg)"
  shows "\<exists>b. findBestResponse cfg p cur = Inr b \<and> b < length (strategies cfg) \<and>
             (\<forall>j<length (strategies cfg). f j \<le> f b) \<and> (\<forall>j<b. f j < f b)"
  using best_response_loop_upt[OF assms(1), of 0 "(0, NegInfinity)"] assms(2)
  by (auto simp: findBestResponse_def)

lemma sequential_round_profile:
  assumes "best_response_round cfg start = Inr s'"
    and "real (length start) = players cfg"
    and "real p < players cfg"
  shows "findBestResponse cfg p (take p s' @ drop p start) = Inr (s' ! p) \<and>
         (\<forall>f. (\<forall>j<length (strategies cfg).
                  getPayoff cfg p ((take p s' @ drop p start)[p := j]) = Inr (Some (f j))) \<and>
               0 < length (strategies cfg) \<longrightarrow>
               s' ! p < length (strategies cfg) \<and>
               (\<forall>j<length (strategies cfg). f j \<le> f (s' ! p)) \<and>
               (\<forall>j<s' ! p. f j < f (s' ! p)))"
proof -
  have fbr: "findBestResponse cfg p (take p s' @ drop p start) = Inr (s' ! p)"
    using update_players_upt[of cfg 0 "length start" start s'] assms
      player_count_nat[of cfg "length start"]
    by (simp add: best_response_round_def)
  have tie: "s' ! p < length (strategies cfg) \<and>
               (\<forall>j<length (strategies cfg). f j \<le> f (s' ! p)) \<and>
               (\<forall>j<s' ! p. f j < f (s' ! p))"
    if a: "(\<forall>j<length (strategies cfg).
                  getPayoff cfg p ((take p s' @ drop p start)[p := j]) = Inr (Some (f j))) \<and>
               0 < length (strategies cfg)" for f
    using findBestResponse_lowest_maximiser[of cfg p "take p s' @ drop p start" f] a fbr
    by auto
  show ?thesis using fbr tie by blast
qed

lemma two_player_getPayoff:
  assumes "two_player_table cfg" "a < length (strategies cfg)" "b < length (strategies cfg)" "p < 2"
  shows "getPayoff cfg p [a, b] = Inr (Some (payoffs cfg ! a ! b ! p))"
proof -
  have la: "a < length (payoffs cfg)" using assms(1,2) by (simp add: two_player_table_def)
  then have row: "payoffs cfg ! a \<in> set (payoffs cfg)" by simp
  then have lb: "b < length (payoffs cfg ! a)"
    using assms(1,3) by (auto simp: two_player_table_def list_all_iff)
  then have "payoffs cfg ! a ! b \<in> set (payoffs cfg ! a)" by simp
  then have lp: "p < length (payoffs cfg ! a ! b)"
    using assms(1,4) row by (auto simp: two_player_table_def list_all_iff)
  show ?thesis using la lb lp by (simp add: getPayoff_def nth_opt_def)
qed

lemma two_player_findBestResponse:
  assumes "two_player_table cfg" "a < length (strategies cfg)" "b < length (strategies cfg)" "p < 2"
  shows "\<exists>r<length (strategies cfg). findBestResponse cfg p [a, b] = Inr r"
proof -
  have p01: "p = 0 \<or> p = 1" using assms(4) by auto
  let ?f = "\<lambda>j. if p = 0 then payoffs cfg ! j ! b ! p else payoffs cfg ! a ! j ! p"
  have "\<forall>j<length (strategies cfg). getPayoff cfg p ([a, b][p := j]) = Inr (Some (?f j))"
    using p01 two_player_getPayoff[OF assms(1) _ _ assms(4)] assms(2,3) by auto
  from findBestResponse_lowest_maximiser[OF this] assms(1) show ?thesis
    by (auto simp: two_player_table_def)
qed

lemma two_player_round_returns:
  assumes "two_player_table cfg" "a < length (strategies cfg)" "b < length (strategies cfg)"
  shows "\<exists>a' b'. best_response_round cfg [a, b] = Inr [a', b'] \<and>
           a' < length (strategies cfg) \<and> b' < length (strategies cfg)"
proof -
  obtain a' where a': "a' < length (strategies cfg)" "findBestResponse cfg 0 [a, b] = Inr a'"
    using two_player_findBestResponse[OF assms, of 0] by auto
  obtain b' where b': "b' < length (strategies cfg)" "findBestResponse cfg 1 [a', b] = Inr b'"
    using two_player_findBestResponse[OF assms(1) a'(1) assms(3), of 1] by auto
  have "players cfg = real 2" using assms(1) by (simp add: two_player_table_def)
  then have "player_count cfg = 2" by (rule player_count_nat)
  then have "best_response_round cfg [a, b] = Inr [a', b']"
    using a'(2) b'(2) by (simp add: best_response_round_def upt2)
  then show ?thesis using a'(1) b'(1) by blast
qed

text \<open>
  C1, amended. The players are updated one after the other in the order of their
  indices: player \<open>p\<close>'s new strategy is its best response to the profile in which the
  players before \<open>p\<close> already have this round's strategies and the others still have
  the previous round's. Where every candidate has a payoff, the best response is the
  lowest index among the maximisers. For a two-player game with a full \<open>k\<close> by \<open>k\<close>
  table the round returns such a profile from every profile of strategy indices.
\<close>

theorem round_is_sequential:
  "(two_player_table cfg \<and> a < length (strategies cfg) \<and> b < length (strategies cfg) \<longrightarrow>
      (\<exists>a' b'. best_response_round cfg [a, b] = Inr [a', b'] \<and>
         a' < length (strategies cfg) \<and> b' < length (strategies cfg))) \<and>
   (best_response_round cfg start = Inr s' \<and> real (length start) = players cfg \<and>
    real p < players cfg \<longrightarrow>
      findBestResponse cfg p (take p s' @ drop p start) = Inr (s' ! p) \<and>
      (\<forall>f. (\<forall>j<length (strategies cfg).
               getPayoff cfg p ((take p s' @ drop p start)[p := j]) = Inr (Some (f j))) \<and>
            0 < length (strategies cfg) \<longrightarrow>
            s' ! p < length (strategies cfg) \<and>
            (\<forall>j<length (strategies cfg). f j \<le> f (s' ! p)) \<and>
            (\<forall>j<s' ! p. f j < f (s' ! p))))"
  using two_player_round_returns[of cfg a b] sequential_round_profile[of cfg start s' p]
  by blast

theorem round_is_sequential_witness:
  "two_player_table (coordinationGame_config 100) \<and>
   (0::nat) < length (strategies (coordinationGame_config 100)) \<and>
   (1::nat) < length (strategies (coordinationGame_config 100)) \<and>
   best_response_round (coordinationGame_config 100) [0, 1] = Inr [1, 1] \<and>
   real (length [0, 1 :: nat]) = players (coordinationGame_config 100) \<and>
   real 1 < players (coordinationGame_config 100) \<and>
   findBestResponse (coordinationGame_config 100) 1 (take 1 [1, 1] @ drop 1 [0, 1]) = Inr ([1, 1] ! 1) \<and>
   getPayoff (coordinationGame_config 100) 1 ((take 1 [1, 1] @ drop 1 [0, 1])[1 := 0]) = Inr (Some 0) \<and>
   getPayoff (coordinationGame_config 100) 1 ((take 1 [1, 1] @ drop 1 [0, 1])[1 := 1]) = Inr (Some 1)"
proof -
  let ?cfg = "coordinationGame_config 100"
  have t: "two_player_table ?cfg" by (simp add: two_player_table_def coord_cfg_simps)
  have k: "(0::nat) < length (strategies ?cfg)" "(1::nat) < length (strategies ?cfg)"
    by (simp_all add: coord_cfg_simps)
  have n: "real (length [0, 1 :: nat]) = players ?cfg" "real 1 < players ?cfg"
    by (simp_all add: coord_cfg_simps)
  have r: "best_response_round ?cfg [0, 1] = Inr [1, 1]" by (rule coord_sequential)
  have g: "getPayoff ?cfg 1 ((take 1 [1, 1] @ drop 1 [0, 1])[1 := 0]) = Inr (Some 0)"
    "getPayoff ?cfg 1 ((take 1 [1, 1] @ drop 1 [0, 1])[1 := 1]) = Inr (Some 1)"
    by (simp_all add: coord_cfg_simps getPayoff_def nth_opt_def)
  from round_is_sequential[of ?cfg 0 1 "[0, 1]" "[1, 1]" 1] r n
  have f: "findBestResponse ?cfg 1 (take 1 [1, 1] @ drop 1 [0, 1]) = Inr ([1, 1] ! 1)"
    by blast
  show ?thesis using t k r n f g by (intro conjI)
qed

lemma upt3: "[0..<3] = [0, Suc 0, Suc (Suc 0)]"
  by (simp add: upt_rec)

lemma sequence_results_ok:
  "\<forall>x\<in>set xs. \<exists>v. x = Inr v \<Longrightarrow> \<exists>vs. sequence_results xs = Inr vs"
  by (induction xs) auto

lemma getPayoff_fallback_ok:
  assumes "payoffs cfg = (entry # row) # rest" "length s \<noteq> 2 \<or> s = [0, 0]"
  shows "\<exists>v. getPayoff cfg p s = Inr v"
  using assms by (auto simp: getPayoff_def nth_opt_def split: option.splits)

lemma best_response_loop_ok:
  "\<forall>j\<in>set cands. \<exists>v. getPayoff cfg p (cur[p := j]) = Inr v \<Longrightarrow>
   \<exists>b. best_response_loop cfg p cur cands best = Inr b"
  by (induction cands arbitrary: best) auto

lemma findBestResponse_ok:
  assumes "n \<noteq> 2 \<or> strategies cfg = []"
    and "payoffs cfg = (entry # row) # rest"
    and "length s = n \<and> (n = 2 \<longrightarrow> s = [0, 0])"
  shows "\<exists>b. findBestResponse cfg p s = Inr b \<and>
             length (s[p := b]) = n \<and> (n = 2 \<longrightarrow> s[p := b] = [0, 0])"
proof (cases "n = 2")
  case True
  then have "strategies cfg = []" "s = [0, 0]" using assms by auto
  then show ?thesis using True
    by (cases p) (auto simp: findBestResponse_def split: nat.splits)
next
  case False
  then have "\<forall>j. \<exists>v. getPayoff cfg p (s[p := j]) = Inr v"
    using getPayoff_fallback_ok[OF assms(2)] assms(3) by simp
  then obtain b where "best_response_loop cfg p s [0..<length (strategies cfg)] (0, NegInfinity) = Inr b"
    using best_response_loop_ok[of "[0..<length (strategies cfg)]" cfg p s "(0, NegInfinity)"] by blast
  then show ?thesis using False assms(3) by (simp add: findBestResponse_def)
qed

lemma update_players_ok:
  assumes "n \<noteq> 2 \<or> strategies cfg = []"
    and "payoffs cfg = (entry # row) # rest"
  shows "length s = n \<and> (n = 2 \<longrightarrow> s = [0, 0]) \<Longrightarrow>
     \<exists>s'. update_players cfg ps s = Inr s' \<and>
          length s' = n \<and> (n = 2 \<longrightarrow> s' = [0, 0])"
proof (induction ps arbitrary: s)
  case Nil
  then show ?case by simp
next
  case (Cons p ps)
  from findBestResponse_ok[OF assms Cons.prems, of p] obtain b where
    b: "findBestResponse cfg p s = Inr b"
       "length (s[p := b]) = n \<and> (n = 2 \<longrightarrow> s[p := b] = [0, 0])"
    by blast
  from Cons.IH[OF b(2)] b(1) show ?case by simp
qed

lemma simulate_rounds_ok:
  assumes "n \<noteq> 2 \<or> strategies cfg = []"
    and "payoffs cfg = (entry # row) # rest"
  shows "length (playerStrategies run) = n \<and>
           (n = 2 \<longrightarrow> playerStrategies run = [0, 0]) \<Longrightarrow>
     \<exists>run'. simulate_rounds cfg m run = Inr run' \<and>
          length (playerStrategies run') = n \<and>
          (n = 2 \<longrightarrow> playerStrategies run' = [0, 0])"
proof (induction m arbitrary: run)
  case 0
  then show ?case by simp
next
  case (Suc m)
  from update_players_ok[OF assms Suc.prems, of "[0..<player_count cfg]"] obtain s' where
    s': "best_response_round cfg (playerStrategies run) = Inr s'"
        "length s' = n \<and> (n = 2 \<longrightarrow> s' = [0, 0])"
    by (auto simp: best_response_round_def)
  let ?run' = "\<lparr> playerStrategies = s',
        convergence_log = convergence_log run @
          [calculateConvergence (strategyHistory run @ [playerStrategies run])],
        strategyHistory = strategyHistory run @ [playerStrategies run] \<rparr>"
  have "length (playerStrategies ?run') = n \<and>
           (n = 2 \<longrightarrow> playerStrategies ?run' = [0, 0])" using s'(2) by simp
  from Suc.IH[OF this] s' show ?case by (auto simp: Let_def)
qed

lemma initial_strategies_ok:
  assumes "n \<noteq> 2 \<or> strategies cfg = []" and "players cfg = real n"
  shows "length (initial_strategies cfg rnd) = n \<and>
         (n = 2 \<longrightarrow> initial_strategies cfg rnd = [0, 0])"
  using assms by (auto simp: initial_strategies_def random_index_def upt2)

lemma simulate_range_error:
  assumes "array_length (players cfg) = Inl RangeError"
  shows "GameTheory_simulate cfg rnd = Inl RangeError"
  using assms by (simp add: GameTheory_simulate_def)

lemma simulate_returns:
  assumes "players cfg = real n" and "n < 2 ^ 32"
    and "n \<noteq> 2 \<or> strategies cfg = []"
    and "payoffs cfg = (entry # row) # rest"
  shows "\<exists>r. GameTheory_simulate cfg rnd = Inr r"
proof -
  let ?run0 = "\<lparr> playerStrategies = initial_strategies cfg rnd, convergence_log = [],
                strategyHistory = [] \<rparr>"
  have len: "array_length (players cfg) = Inr n"
    using array_length_nat[OF assms(2)] assms(1) by simp
  have "length (playerStrategies ?run0) = n \<and>
           (n = 2 \<longrightarrow> playerStrategies ?run0 = [0, 0])"
    using initial_strategies_ok[OF assms(3) assms(1), of rnd] by simp
  from simulate_rounds_ok[OF assms(3) assms(4) this, of "iterations cfg"]
  obtain run' where run': "simulate_rounds cfg (iterations cfg) ?run0 = Inr run'"
     "length (playerStrategies run') = n \<and> (n = 2 \<longrightarrow> playerStrategies run' = [0, 0])"
    by auto
  have "length (playerStrategies run') \<noteq> 2 \<or> playerStrategies run' = [0, 0]"
    using run'(2) by blast
  then have "\<forall>p. \<exists>v. getPayoff cfg p (playerStrategies run') = Inr v"
    using getPayoff_fallback_ok[OF assms(4)] by blast
  then obtain finalPayoffs where "calculatePayoffs cfg (playerStrategies run') = Inr finalPayoffs"
    using sequence_results_ok[of "map (\<lambda>player. getPayoff cfg player (playerStrategies run')) [0..<n]"]
    by (auto simp: calculatePayoffs_def len)
  then show ?thesis using run'(1)
    by (simp add: GameTheory_simulate_def GameTheory_simulate_from_def len)
qed

text \<open>
  C6, amended. There is no validation step. The constructor stores the configuration
  it is given unchanged. \<^verbatim>\<open>simulate\<close> fails before any simulation work in one case
  only, with the \<^verbatim>\<open>RangeError\<close> of \<^verbatim>\<open>Array(players)\<close>: when the player count is
  negative, not an integer, or \<open>2^32\<close> or more. For every other player count \<open>n\<close>
  (also \<open>n = 0\<close>), whenever the entry \<^verbatim>\<open>payoffs[0][0]\<close> exists and \<open>n\<close> is not 2 or
  there is no strategy, \<^verbatim>\<open>simulate\<close> returns a result, whatever the strategy count
  and the shape of the rest of the tensor.
\<close>

theorem simulate_without_validation:
  "GameTheorySimulator \<lparr> opt_players = Some m, opt_strategies = Some ss,
      opt_payoffs = Some ps, opt_iterations = Some its \<rparr> =
      \<lparr> players = m, strategies = ss, payoffs = ps, iterations = its \<rparr> \<and>
   (players cfg < 0 \<or> real_of_int \<lfloor>players cfg\<rfloor> \<noteq> players cfg \<or> 2 ^ 32 \<le> players cfg \<longrightarrow>
      GameTheory_simulate cfg rnd = Inl RangeError) \<and>
   (players cfg = real n \<and> n < 2 ^ 32 \<and> (n \<noteq> 2 \<or> strategies cfg = []) \<and>
    payoffs cfg = (entry # row) # rest \<longrightarrow>
      (\<exists>r. GameTheory_simulate cfg rnd = Inr r))"
proof (intro conjI impI)
  show "GameTheorySimulator \<lparr> opt_players = Some m, opt_strategies = Some ss,
      opt_payoffs = Some ps, opt_iterations = Some its \<rparr> =
      \<lparr> players = m, strategies = ss, payoffs = ps, iterations = its \<rparr>"
    by (simp add: GameTheorySimulator_def or_default_def)
next
  assume "players cfg < 0 \<or> real_of_int \<lfloor>players cfg\<rfloor> \<noteq> players cfg \<or> 2 ^ 32 \<le> players cfg"
  then have "array_length (players cfg) = Inl RangeError"
    by (auto simp: array_length_def)
  then show "GameTheory_simulate cfg rnd = Inl RangeError" by (rule simulate_range_error)
next
  assume a: "players cfg = real n \<and> n < 2 ^ 32 \<and> (n \<noteq> 2 \<or> strategies cfg = []) \<and>
    payoffs cfg = (entry # row) # rest"
  show "\<exists>r. GameTheory_simulate cfg rnd = Inr r"
    using simulate_returns[of cfg n entry row rest rnd] a by blast
qed

theorem simulate_without_validation_witness:
  "players (GameTheorySimulator \<lparr> opt_players = Some 0, opt_strategies = None,
       opt_payoffs = None, opt_iterations = Some 2 \<rparr>) = real 0 \<and>
   (0::nat) < 2 ^ 32 \<and> (0::nat) \<noteq> 2 \<and>
   payoffs (GameTheorySimulator \<lparr> opt_players = Some 0, opt_strategies = None,
       opt_payoffs = None, opt_iterations = Some 2 \<rparr>) = ([3, 3] # [[1, 4]]) # [[[4, 1], [2, 2]]] \<and>
   (\<exists>r. GameTheory_simulate (GameTheorySimulator \<lparr> opt_players = Some 0, opt_strategies = None,
       opt_payoffs = None, opt_iterations = Some 2 \<rparr>) (\<lambda>i. 0) = Inr r) \<and>
   players (GameTheorySimulator \<lparr> opt_players = Some (- 1), opt_strategies = None,
       opt_payoffs = None, opt_iterations = None \<rparr>) < 0 \<and>
   GameTheory_simulate (GameTheorySimulator \<lparr> opt_players = Some (- 1), opt_strategies = None,
       opt_payoffs = None, opt_iterations = None \<rparr>) (\<lambda>i. 0) = Inl RangeError"
proof -
  let ?cfg = "GameTheorySimulator \<lparr> opt_players = Some 0, opt_strategies = None,
       opt_payoffs = None, opt_iterations = Some 2 \<rparr>"
  let ?neg = "GameTheorySimulator \<lparr> opt_players = Some (- 1), opt_strategies = None,
       opt_payoffs = None, opt_iterations = None \<rparr>"
  have n: "players ?cfg = real 0" by (simp add: GameTheorySimulator_def or_default_def)
  have b: "(0::nat) < 2 ^ 32" "(0::nat) \<noteq> 2" by simp_all
  have p: "payoffs ?cfg = ([3, 3] # [[1, 4]]) # [[[4, 1], [2, 2]]]"
    by (simp add: GameTheorySimulator_def or_default_def)
  have m: "players ?neg < 0" by (simp add: GameTheorySimulator_def or_default_def)
  have r: "\<exists>r. GameTheory_simulate ?cfg (\<lambda>i. 0) = Inr r"
    using simulate_without_validation[of 0 "[]" "[]" 0 ?cfg "\<lambda>i. 0" 0 "[3, 3]" "[[1, 4]]"
        "[[[4, 1], [2, 2]]]"] n b p by blast
  have e: "GameTheory_simulate ?neg (\<lambda>i. 0) = Inl RangeError"
    using simulate_without_validation[of 0 "[]" "[]" 0 ?neg "\<lambda>i. 0" 0 "[]" "[]" "[]"] m by blast
  show ?thesis using n b p r m e by (intro conjI)
qed

text \<open>
  C6 as stated fails: a configuration with no player, one with no strategy, and one
  with three players over the 2 by 2 table each return a result.
\<close>

theorem simulate_accepts_invalid_configurations:
  "GameTheory_simulate
     (GameTheorySimulator \<lparr> opt_players = Some 0, opt_strategies = None,
        opt_payoffs = None, opt_iterations = Some 2 \<rparr>) (\<lambda>i. 0) =
   Inr \<lparr> equilibrium = [], result_payoffs = [],
         convergence = [Some 0, None], result_iterations = 2 \<rparr> \<and>
   GameTheory_simulate
     (GameTheorySimulator \<lparr> opt_players = None, opt_strategies = Some [],
        opt_payoffs = None, opt_iterations = Some 3 \<rparr>) (\<lambda>i. 0) =
   Inr \<lparr> equilibrium = [None, None], result_payoffs = [Some 3, Some 3],
         convergence = [Some 0, Some 1], result_iterations = 2 \<rparr> \<and>
   GameTheory_simulate
     (GameTheorySimulator \<lparr> opt_players = Some 3, opt_strategies = None,
        opt_payoffs = None, opt_iterations = Some 3 \<rparr>) (\<lambda>i. 0) =
   Inr \<lparr> equilibrium = [Some ''Cooperate'', Some ''Cooperate'', Some ''Cooperate''],
         result_payoffs = [Some 3, Some 3, Some 0],
         convergence = [Some 0, Some 1], result_iterations = 2 \<rparr>"
  by (simp add: GameTheory_simulate_def GameTheory_simulate_from_def initial_strategies_def
      GameTheorySimulator_def or_default_def numeral_2_eq_2 numeral_3_eq_3
      best_response_round_def Let_def calculateConvergence_def converged_enough_def
      calculatePayoffs_def upt2 upt3 random_index_def findBestResponse_def count_matches_def
      nth_opt_def getPayoff_def array_length_def player_count_def)

section \<open>Properties of the socioeconomic dynamics simulator\<close>

lemma applySystemDynamics_bounds: "within_bounds (fst (applySystemDynamics rnd i st))"
  by (simp add: applySystemDynamics_def within_bounds_def)

lemma epr_step_bounds: "within_bounds (state (fst (epr_step rnd i sim)))"
proof -
  obtain st1 j where a: "agents_act rnd i (state sim) (agents sim) (zone_of (state sim)) = (st1, j)"
    by (cases "agents_act rnd i (state sim) (agents sim) (zone_of (state sim))")
  obtain st2 k where d: "applySystemDynamics rnd j st1 = (st2, k)"
    by (cases "applySystemDynamics rnd j st1")
  have "within_bounds st2" using applySystemDynamics_bounds[of rnd j st1] d by simp
  then show ?thesis using a d by (simp add: epr_step_def)
qed

lemma recorded_states_bounds:
  "within_bounds (state sim) \<Longrightarrow> list_all within_bounds (recorded_states rnd n i sim)"
proof (induction n arbitrary: i sim)
  case 0
  then show ?case by simp
next
  case (Suc n)
  obtain sim' j where step: "epr_step rnd i sim = (sim', j)" by (cases "epr_step rnd i sim")
  then have "within_bounds (state sim')" using epr_step_bounds[of rnd i sim] by simp
  from Suc.IH[OF this] Suc.prems step show ?case by simp
qed

lemma recorded_states_length: "length (recorded_states rnd n i sim) = n"
  by (induction n arbitrary: i sim) (auto split: prod.splits)

lemma epr_loop_history:
  "fst (snd (epr_loop rnd n i sim h)) =
     \<lparr> history_value = history_value h @ map val (recorded_states rnd n i sim),
       history_stability = history_stability h @ map stability (recorded_states rnd n i sim),
       history_equity = history_equity h @ map equity (recorded_states rnd n i sim),
       history_reputation = history_reputation h @ map reputation (recorded_states rnd n i sim) \<rparr>"
proof (induction n arbitrary: i sim h)
  case 0
  then show ?case by simp
next
  case (Suc n)
  obtain sim' j where step: "epr_step rnd i sim = (sim', j)" by (cases "epr_step rnd i sim")
  show ?case using Suc.IH[of j sim' "record_state h (state sim)"] step
    by (simp add: record_state_def)
qed

lemma EPR_simulate_history:
  "history (fst (EPR_simulate rnd i sim)) =
     \<lparr> history_value = map val (recorded_states rnd (steps (scenario sim)) i sim),
       history_stability = map stability (recorded_states rnd (steps (scenario sim)) i sim),
       history_equity = map equity (recorded_states rnd (steps (scenario sim)) i sim),
       history_reputation = map reputation (recorded_states rnd (steps (scenario sim)) i sim) \<rparr>"
  using epr_loop_history[of rnd "steps (scenario sim)" i sim
      "\<lparr> history_value = [], history_stability = [], history_equity = [], history_reputation = [] \<rparr>"]
  by (cases "epr_loop rnd (steps (scenario sim)) i sim
      \<lparr> history_value = [], history_stability = [], history_equity = [], history_reputation = [] \<rparr>")
    (simp add: EPR_simulate_def)

lemma or_number_bounds:
  "bounded_opt x lo hi \<Longrightarrow> lo \<le> d \<Longrightarrow> d \<le> hi \<Longrightarrow> lo \<le> or_number x d \<and> or_number x d \<le> hi"
  by (auto simp: bounded_opt_def or_number_def split: option.splits)

lemma EPRSimulator_bounds:
  assumes "valid_initial (initial sc)"
  shows "within_bounds (state (EPRSimulator sc))"
  using assms
    or_number_bounds[of "opt_stability (initial sc)" 0 2 1]
    or_number_bounds[of "opt_equity (initial sc)" 0 1 "0.5"]
    or_number_bounds[of "opt_reputation (initial sc)" 0 1 "0.7"]
    or_number_bounds[of "opt_resources (initial sc)" 0 300 100]
  by (simp add: valid_initial_def EPRSimulator_def within_bounds_def Let_def)

lemma EPRSimulator_scenario: "scenario (EPRSimulator sc) = sc"
  by (simp add: EPRSimulator_def Let_def)

text \<open>
  C2. From a valid initial configuration and for every positive step count, the
  history holds the stability, equity and reputation of the states recorded at the
  start of each step, one per step, and every recorded state is within the declared
  bounds: stability in \<open>[0, 2]\<close>, equity and reputation in \<open>[0, 1]\<close>, resources in
  \<open>[0, 300]\<close>. So every entry of the returned history is within its bounds.
\<close>

theorem recorded_steps_within_bounds:
  assumes "valid_initial (initial sc)" and "0 < steps sc"
  shows "history_stability (history (fst (EPR_simulate rnd i (EPRSimulator sc)))) =
           map stability (recorded_states rnd (steps sc) i (EPRSimulator sc)) \<and>
         history_equity (history (fst (EPR_simulate rnd i (EPRSimulator sc)))) =
           map equity (recorded_states rnd (steps sc) i (EPRSimulator sc)) \<and>
         history_reputation (history (fst (EPR_simulate rnd i (EPRSimulator sc)))) =
           map reputation (recorded_states rnd (steps sc) i (EPRSimulator sc)) \<and>
         length (recorded_states rnd (steps sc) i (EPRSimulator sc)) = steps sc \<and>
         list_all within_bounds (recorded_states rnd (steps sc) i (EPRSimulator sc)) \<and>
         list_all (\<lambda>x. 0 \<le> x \<and> x \<le> 2)
           (history_stability (history (fst (EPR_simulate rnd i (EPRSimulator sc))))) \<and>
         list_all (\<lambda>x. 0 \<le> x \<and> x \<le> 1)
           (history_equity (history (fst (EPR_simulate rnd i (EPRSimulator sc))))) \<and>
         list_all (\<lambda>x. 0 \<le> x \<and> x \<le> 1)
           (history_reputation (history (fst (EPR_simulate rnd i (EPRSimulator sc)))))"
proof -
  let ?recs = "recorded_states rnd (steps sc) i (EPRSimulator sc)"
  have b: "list_all within_bounds ?recs"
    using recorded_states_bounds[OF EPRSimulator_bounds[OF assms(1)]] .
  have h: "history (fst (EPR_simulate rnd i (EPRSimulator sc))) =
     \<lparr> history_value = map val ?recs, history_stability = map stability ?recs,
       history_equity = map equity ?recs, history_reputation = map reputation ?recs \<rparr>"
    using EPR_simulate_history[of rnd i "EPRSimulator sc"] by (simp add: EPRSimulator_scenario)
  have s: "list_all (\<lambda>x. 0 \<le> x \<and> x \<le> 2) (map stability ?recs)"
    using b by (simp add: list_all_iff within_bounds_def)
  have e: "list_all (\<lambda>x. 0 \<le> x \<and> x \<le> 1) (map equity ?recs)"
    using b by (simp add: list_all_iff within_bounds_def)
  have r: "list_all (\<lambda>x. 0 \<le> x \<and> x \<le> 1) (map reputation ?recs)"
    using b by (simp add: list_all_iff within_bounds_def)
  show ?thesis using b h s e r recorded_states_length[of rnd "steps sc" i "EPRSimulator sc"]
    by simp
qed

lemma demo_valid: "valid_initial (initial demographicsCollapse)"
  by (simp add: valid_initial_def bounded_opt_def demographicsCollapse_def)

theorem recorded_steps_within_bounds_witness:
  "valid_initial (initial demographicsCollapse) \<and> 0 < steps demographicsCollapse \<and>
   length (history_stability (history (fst (EPR_simulate (\<lambda>n. 1 / 2) 0 (EPRSimulator demographicsCollapse))))) = 20 \<and>
   list_all within_bounds (recorded_states (\<lambda>n. 1 / 2) (steps demographicsCollapse) 0 (EPRSimulator demographicsCollapse)) \<and>
   list_all (\<lambda>x. 0 \<le> x \<and> x \<le> 2)
     (history_stability (history (fst (EPR_simulate (\<lambda>n. 1 / 2) 0 (EPRSimulator demographicsCollapse)))))"
proof -
  let ?recs = "recorded_states (\<lambda>n. 1 / 2) (steps demographicsCollapse) 0 (EPRSimulator demographicsCollapse)"
  let ?h = "history (fst (EPR_simulate (\<lambda>n. 1 / 2) 0 (EPRSimulator demographicsCollapse)))"
  have s: "0 < steps demographicsCollapse" by (simp add: demographicsCollapse_def)
  have n: "steps demographicsCollapse = 20" by (simp add: demographicsCollapse_def)
  note t = recorded_steps_within_bounds[OF demo_valid s, of "\<lambda>n. 1 / 2" 0]
  from t have eq: "history_stability ?h = map stability ?recs" by blast
  from t have len: "length ?recs = steps demographicsCollapse" by blast
  from t have b: "list_all within_bounds ?recs" by blast
  from t have st: "list_all (\<lambda>x. 0 \<le> x \<and> x \<le> 2) (history_stability ?h)" by blast
  have "length (history_stability ?h) = 20" using eq len n by simp
  then show ?thesis using demo_valid s b st by blast
qed

text \<open>
  C10, amended. The constructor replaces an initial value equal to 0 by the default:
  value 80, stability 1.0, equity 0.5, reputation 0.7, resources 100. With an initial
  stability of 0 the run starts from stability 1.0, which is in the red zone
  (\<open>1.0 < 1.2\<close>), and the first recorded state has stability 1.0.
\<close>

theorem constructor_replaces_zero:
  "(opt_stability (initial sc) = Some 0 \<longrightarrow>
      stability (state (EPRSimulator sc)) = 1 \<and> zone_of (state (EPRSimulator sc)) = red \<and>
      (\<forall>n. recorded_states rnd (Suc n) i (EPRSimulator sc) \<noteq> [] \<and>
           stability (hd (recorded_states rnd (Suc n) i (EPRSimulator sc))) = 1)) \<and>
   (opt_val (initial sc) = Some 0 \<longrightarrow> val (state (EPRSimulator sc)) = 80) \<and>
   (opt_equity (initial sc) = Some 0 \<longrightarrow> equity (state (EPRSimulator sc)) = 0.5) \<and>
   (opt_reputation (initial sc) = Some 0 \<longrightarrow> reputation (state (EPRSimulator sc)) = 0.7) \<and>
   (opt_resources (initial sc) = Some 0 \<longrightarrow> resources (state (EPRSimulator sc)) = 100)"
  by (auto simp add: EPRSimulator_def or_number_def zone_of_def Let_def split: prod.splits)


theorem constructor_replaces_zero_witness:
  "opt_stability (initial (customScenario ''zero'' 0 0 0 0 20)) = Some 0 \<and>
   opt_val (initial (customScenario ''zero'' 0 0 0 0 20)) = Some 0 \<and>
   opt_equity (initial (customScenario ''zero'' 0 0 0 0 20)) = Some 0 \<and>
   opt_resources (initial (customScenario ''zero'' 0 0 0 0 20)) = Some 0 \<and>
   state (EPRSimulator (customScenario ''zero'' 0 0 0 0 20)) =
     \<lparr> val = 80, stability = 1, equity = 0.5, reputation = 0.7, resources = 100 \<rparr> \<and>
   zone_of (state (EPRSimulator (customScenario ''zero'' 0 0 0 0 20))) = red \<and>
   stability (hd (recorded_states (\<lambda>n. 0) (Suc 0) 0
     (EPRSimulator (customScenario ''zero'' 0 0 0 0 20)))) = 1"
proof -
  let ?sc = "customScenario ''zero'' 0 0 0 0 20"
  have h: "opt_stability (initial ?sc) = Some 0" "opt_val (initial ?sc) = Some 0"
    "opt_equity (initial ?sc) = Some 0" "opt_resources (initial ?sc) = Some 0"
    by (simp_all add: customScenario_def)
  have r: "reputation (state (EPRSimulator ?sc)) = 0.7"
    by (simp add: customScenario_def EPRSimulator_def or_number_def Let_def)
  note t = constructor_replaces_zero[of ?sc "\<lambda>n. 0" 0]
  from t h have a: "stability (state (EPRSimulator ?sc)) = 1"
    "zone_of (state (EPRSimulator ?sc)) = red"
    "stability (hd (recorded_states (\<lambda>n. 0) (Suc 0) 0 (EPRSimulator ?sc))) = 1"
    "val (state (EPRSimulator ?sc)) = 80" "equity (state (EPRSimulator ?sc)) = 0.5"
    "resources (state (EPRSimulator ?sc)) = 100"
    by blast+
  have "state (EPRSimulator ?sc) =
     \<lparr> val = 80, stability = 1, equity = 0.5, reputation = 0.7, resources = 100 \<rparr>"
    using a r by (cases "state (EPRSimulator ?sc)") simp
  then show ?thesis using h a by blast
qed

text \<open>
  C10 as stated fails on the zone: the default stability 1.0 that replaces 0 is in the
  red zone, not in the blue one.
\<close>

theorem zero_stability_starts_in_red_zone:
  "opt_stability (initial (customScenario ''zero'' 80 0 0.5 100 20)) = Some 0 \<and>
   stability (state (EPRSimulator (customScenario ''zero'' 80 0 0.5 100 20))) = 1 \<and>
   zone_of (state (EPRSimulator (customScenario ''zero'' 80 0 0.5 100 20))) \<noteq> blue"
  by (simp add: customScenario_def EPRSimulator_def or_number_def Let_def zone_of_def)

section \<open>Properties of the behavioural choice simulator\<close>






















lemma decision_wealth:
  "wealth (fst (simulateAgentDecision cfg rnd i a)) - wealth a \<in> {0, 50, 300} \<and>
   agent_gamma (fst (simulateAgentDecision cfg rnd i a)) = agent_gamma a \<and>
   agent_lokLevel (fst (simulateAgentDecision cfg rnd i a)) = agent_lokLevel a \<and>
   referencePoint (fst (simulateAgentDecision cfg rnd i a)) = referencePoint a"
  by (cases "probChooseGamble cfg rnd i a") (simp add: simulateAgentDecision_def Let_def)

lemma decision_wealth_le: "wealth a \<le> wealth (fst (simulateAgentDecision cfg rnd i a))"
  using decision_wealth[of cfg rnd i a] by auto

lemma agents_decide_wealth:
  "agents_decide cfg rnd i ags = (ags', ds, j) \<Longrightarrow>
   list_all2 (\<lambda>a a'. wealth a' - wealth a \<in> {0, 50, 300}) ags ags' \<and> length ds = length ags"
proof (induction ags arbitrary: i ags' ds j)
  case Nil
  then show ?case by simp
next
  case (Cons a rest)
  obtain a1 d1 j1 where d: "simulateAgentDecision cfg rnd i a = (a1, d1, j1)"
    by (cases "simulateAgentDecision cfg rnd i a")
  obtain rest1 ds1 k1 where r: "agents_decide cfg rnd j1 rest = (rest1, ds1, k1)"
    by (cases "agents_decide cfg rnd j1 rest")
  have "wealth a1 - wealth a \<in> {0, 50, 300}" using decision_wealth[of cfg rnd i a] d by simp
  then show ?case using Cons.IH[OF r] Cons.prems d r by auto
qed

lemma sum_wealth_mono:
  "list_all2 (\<lambda>a a'. wealth a \<le> wealth a') ags ags' \<Longrightarrow>
   sum_list (map wealth ags) \<le> sum_list (map wealth ags')"
  by (induction rule: list_all2_induct) auto

lemma average_wealth_mono:
  assumes "list_all2 (\<lambda>a a'. wealth a \<le> wealth a') ags ags'"
  shows "average (map wealth ags) \<le> average (map wealth ags')"
proof -
  have "length ags = length ags'" using assms by (rule list_all2_lengthD)
  then show ?thesis using sum_wealth_mono[OF assms]
    by (simp add: average_def divide_right_mono)
qed

lemma step_le:
  "list_all2 (\<lambda>a a'. wealth a' - wealth a \<in> {0, 50, 300}) ags ags' \<Longrightarrow>
   list_all2 (\<lambda>a a'. wealth a \<le> wealth a') ags ags'"
  by (erule list_all2_mono) auto

lemma le_trans_all2:
  "list_all2 (\<lambda>a a'. wealth a \<le> wealth a') xs ys \<Longrightarrow>
   list_all2 (\<lambda>a a'. wealth a \<le> wealth a') ys zs \<Longrightarrow>
   list_all2 (\<lambda>a a'. wealth a \<le> wealth a') xs zs"
proof -
  assume a: "list_all2 (\<lambda>a a'. wealth a \<le> wealth a') xs ys"
    and b: "list_all2 (\<lambda>a a'. wealth a \<le> wealth a') ys zs"
  have len: "length xs = length ys" "length ys = length zs"
    using a b by (auto dest: list_all2_lengthD)
  have "wealth (xs ! i) \<le> wealth (zs ! i)" if "i < length xs" for i
  proof -
    have "wealth (xs ! i) \<le> wealth (ys ! i)" using a that by (rule list_all2_nthD)
    moreover have "wealth (ys ! i) \<le> wealth (zs ! i)"
      using b that len by (auto dest: list_all2_nthD)
    ultimately show ?thesis by linarith
  qed
  then show ?thesis using len by (simp add: list_all2_conv_all_nth)
qed

lemma pt_loop_wealth:
  "pt_loop cfg rnd n i ags ser = (ags', ser', j) \<Longrightarrow>
   list_all2 (\<lambda>a a'. wealth a \<le> wealth a') ags ags' \<and>
   (\<exists>xs. series_wealth ser' = series_wealth ser @ xs \<and> length xs = n \<and> sorted xs \<and>
         list_all (\<lambda>x. average (map wealth ags) \<le> x) xs)"
proof (induction n arbitrary: i ags ser)
  case 0
  then show ?case by (simp add: list_all2_refl)
next
  case (Suc n)
  obtain ags1 ds j1 where d: "agents_decide cfg rnd i ags = (ags1, ds, j1)"
    by (cases "agents_decide cfg rnd i ags")
  let ?ser1 = "\<lparr> series_wealth = series_wealth ser @ [average (map wealth ags1)],
                   series_risk = series_risk ser @ [average (map riskTaken ds)],
                   series_decisions = series_decisions ser @ [average (map choice ds)] \<rparr>"
  have rest: "pt_loop cfg rnd n j1 ags1 ?ser1 = (ags', ser', j)"
    using Suc.prems d by simp
  have le1: "list_all2 (\<lambda>a a'. wealth a \<le> wealth a') ags ags1"
    using agents_decide_wealth[OF d] step_le by blast
  have avg1: "average (map wealth ags) \<le> average (map wealth ags1)"
    using average_wealth_mono[OF le1] .
  from Suc.IH[OF rest] obtain xs where
    le2: "list_all2 (\<lambda>a a'. wealth a \<le> wealth a') ags1 ags'" and
    xs: "series_wealth ser' = series_wealth ?ser1 @ xs" "length xs = n" "sorted xs"
        "list_all (\<lambda>x. average (map wealth ags1) \<le> x) xs"
    by blast
  let ?ys = "average (map wealth ags1) # xs"
  have "series_wealth ser' = series_wealth ser @ ?ys" using xs(1) by simp
  moreover have "length ?ys = Suc n" using xs(2) by simp
  moreover have "sorted ?ys" using xs(3,4) by (simp add: list_all_iff)
  moreover have "list_all (\<lambda>x. average (map wealth ags) \<le> x) ?ys"
    using xs(4) avg1 by (auto simp: list_all_iff)
  ultimately show ?case using le_trans_all2[OF le1 le2] by blast
qed

lemma initialize_agents:
  "pt_agents (initialize sim n w) \<noteq> [] \<longleftrightarrow> 0 < n"
  "list_all (\<lambda>a. wealth a = w) (pt_agents (initialize sim n w))"
  by (auto simp: initialize_def Let_def list_all_iff)

lemma nonneg_step:
  "list_all2 (\<lambda>a a'. wealth a \<le> wealth a') ags ags' \<Longrightarrow> list_all (\<lambda>a. 0 \<le> wealth a) ags \<Longrightarrow>
   list_all (\<lambda>a. 0 \<le> wealth a) ags'"
  by (induction rule: list_all2_induct) auto

lemma PT_simulate_unfold:
  assumes "sim0 = (if length (pt_agents sim) = 0 then initialize sim 500 1000 else sim)"
    and "pt_loop (config sim0) rnd n i (pt_agents sim0)
           \<lparr> series_wealth = [], series_risk = [], series_decisions = [] \<rparr> = (ags, ser, j)"
  shows "pt_agents (fst (snd (PT_simulate rnd i sim n))) = ags"
    and "result_wealth (fst (PT_simulate rnd i sim n)) = series_wealth ser"
proof -
  have "PT_simulate rnd i sim n =
     (\<lparr> result_valueFunction = calculateValueFunction (config sim0),
            result_weightingFunction = calculateWeightingFunction (config sim0),
            decisions = series_decisions ser,
            result_wealth = series_wealth ser,
            riskPropensity = series_risk ser \<rparr>,
          sim0\<lparr> pt_agents := ags \<rparr>, j)"
    unfolding PT_simulate_def assms(1)[symmetric] Let_def assms(2) by simp
  then show "pt_agents (fst (snd (PT_simulate rnd i sim n))) = ags"
    and "result_wealth (fst (PT_simulate rnd i sim n)) = series_wealth ser"
    by simp_all
qed

text \<open>
  C9. Every decision adds exactly 0, 50 or 300 to the agent's wealth. Over a run of any
  number of steps no agent's wealth decreases; when the agents start with non-negative
  wealth, all are non-negative after the run; and the series of the per-step average
  wealth has one entry per step and is non-decreasing. The loop never runs over an
  empty population, since an empty one is replaced by 500 agents first.
\<close>

theorem wealth_never_decreases:
  assumes "list_all (\<lambda>a. 0 \<le> wealth a) (pt_agents sim)"
  shows "wealth (fst (simulateAgentDecision cfg rnd k a)) - wealth a \<in> {0, 50, 300} \<and>
         pt_agents (if length (pt_agents sim) = 0 then initialize sim 500 1000 else sim) \<noteq> [] \<and>
         list_all2 (\<lambda>a a'. wealth a \<le> wealth a')
           (pt_agents (if length (pt_agents sim) = 0 then initialize sim 500 1000 else sim))
           (pt_agents (fst (snd (PT_simulate rnd i sim n)))) \<and>
         list_all (\<lambda>a. 0 \<le> wealth a) (pt_agents (fst (snd (PT_simulate rnd i sim n)))) \<and>
         length (result_wealth (fst (PT_simulate rnd i sim n))) = n \<and>
         sorted (result_wealth (fst (PT_simulate rnd i sim n)))"
proof -
  let ?sim0 = "if length (pt_agents sim) = 0 then initialize sim 500 1000 else sim"
  let ?ser0 = "\<lparr> series_wealth = [], series_risk = [], series_decisions = [] \<rparr>"
  obtain ags ser j where l: "pt_loop (config ?sim0) rnd n i (pt_agents ?sim0) ?ser0 = (ags, ser, j)"
    by (cases "pt_loop (config ?sim0) rnd n i (pt_agents ?sim0) ?ser0")
  have res: "pt_agents (fst (snd (PT_simulate rnd i sim n))) = ags"
    "result_wealth (fst (PT_simulate rnd i sim n)) = series_wealth ser"
    using PT_simulate_unfold[OF refl l] by blast+
  have ne: "pt_agents ?sim0 \<noteq> []"
  proof (cases "pt_agents sim = []")
    case True
    have "pt_agents (initialize sim 500 1000) \<noteq> []" by (simp add: initialize_agents(1))
    then show ?thesis using True by simp
  next
    case False
    then show ?thesis by simp
  qed
  have nn0: "list_all (\<lambda>a. 0 \<le> wealth a) (pt_agents ?sim0)"
  proof (cases "pt_agents sim = []")
    case True
    have "list_all (\<lambda>a. wealth a = 1000) (pt_agents (initialize sim 500 1000))"
      by (rule initialize_agents(2))
    then have "list_all (\<lambda>a. 0 \<le> wealth a) (pt_agents (initialize sim 500 1000))"
      by (rule list.pred_mono_strong) simp
    then show ?thesis using True by simp
  next
    case False
    then show ?thesis using assms by simp
  qed
  from pt_loop_wealth[OF l] obtain xs where
    le: "list_all2 (\<lambda>a a'. wealth a \<le> wealth a') (pt_agents ?sim0) ags" and
    xs: "series_wealth ser = xs" "length xs = n" "sorted xs"
    by auto
  have dw: "wealth (fst (simulateAgentDecision cfg rnd k a)) - wealth a \<in> {0, 50, 300}"
    using decision_wealth[of cfg rnd k a] by blast
  have nn: "list_all (\<lambda>a. 0 \<le> wealth a) ags" using nonneg_step[OF le nn0] .
  have len: "length (series_wealth ser) = n" and srt: "sorted (series_wealth ser)"
    using xs by simp_all
  show ?thesis
    unfolding res using dw ne le nn len srt by (intro conjI)
qed


theorem wealth_never_decreases_witness:
  "list_all (\<lambda>a. 0 \<le> wealth a)
     (pt_agents (initialize (ProspectTheorySimulator
        \<lparr> opt_alpha = None, opt_beta = None, opt_lambda = None, opt_gamma = None,
          opt_delta = None, opt_lokLevel = None \<rparr>) 2 1000)) \<and>
   list_all (\<lambda>a. 0 \<le> wealth a)
     (pt_agents (fst (snd (PT_simulate (\<lambda>n. 0) 0 (initialize (ProspectTheorySimulator
        \<lparr> opt_alpha = None, opt_beta = None, opt_lambda = None, opt_gamma = None,
          opt_delta = None, opt_lokLevel = None \<rparr>) 2 1000) 3)))) \<and>
   length (result_wealth (fst (PT_simulate (\<lambda>n. 0) 0 (initialize (ProspectTheorySimulator
        \<lparr> opt_alpha = None, opt_beta = None, opt_lambda = None, opt_gamma = None,
          opt_delta = None, opt_lokLevel = None \<rparr>) 2 1000) 3))) = 3 \<and>
   sorted (result_wealth (fst (PT_simulate (\<lambda>n. 0) 0 (initialize (ProspectTheorySimulator
        \<lparr> opt_alpha = None, opt_beta = None, opt_lambda = None, opt_gamma = None,
          opt_delta = None, opt_lokLevel = None \<rparr>) 2 1000) 3)))"
proof -
  let ?sim = "initialize (ProspectTheorySimulator
        \<lparr> opt_alpha = None, opt_beta = None, opt_lambda = None, opt_gamma = None,
          opt_delta = None, opt_lokLevel = None \<rparr>) 2 1000"
  have "pt_agents ?sim =
      [\<lparr> wealth = 1000, agent_gamma = 0.61, agent_lokLevel = 0, referencePoint = 0 \<rparr>,
       \<lparr> wealth = 1000, agent_gamma = 0.3, agent_lokLevel = 1, referencePoint = 0 \<rparr>]"
    by (simp add: initialize_def ProspectTheorySimulator_def or_default_def Let_def)
  then have h: "list_all (\<lambda>a. 0 \<le> wealth a) (pt_agents ?sim)" by simp
  from wealth_never_decreases[OF h, of "config ?sim" "\<lambda>n. 0" 0
      "\<lparr> wealth = 1000, agent_gamma = 0.61, agent_lokLevel = 0, referencePoint = 0 \<rparr>" 0 3] h
  show ?thesis by blast
qed

section \<open>Properties of the evolutionary optimizer\<close>

lemma random_index_in_range:
  "valid_rng rnd \<Longrightarrow> xs \<noteq> [] \<Longrightarrow> random_index (rnd i) (length xs) < length xs"
  using random_index_less[of "rnd i" "length xs"] by (simp add: valid_rng_def)

lemma tournamentSelection_ok:
  assumes "valid_rng rnd" "pop \<noteq> []"
  shows "\<exists>b. tournamentSelection rnd i pop = Inr (b, i + 3) \<and> b \<in> set pop"
  using random_index_in_range[OF assms, of i] random_index_in_range[OF assms, of "i + 1"]
    random_index_in_range[OF assms, of "i + 2"]
  by (simp add: tournamentSelection_def nth_opt_def Let_def)

lemma fill_population_ok:
  assumes "valid_rng rnd" "pop \<noteq> []"
  shows "\<exists>np j. fill_population cfg rnd i pop new = Inr (np, j) \<and>
           length np = max (populationSize cfg) (length new) \<and> take (length new) np = new"
proof (induction "populationSize cfg - length new" arbitrary: i new)
  case 0
  then show ?case by (simp add: fill_population.simps)
next
  case (Suc d)
  then have lt: "length new < populationSize cfg" by simp
  obtain p1 where p1: "tournamentSelection rnd i pop = Inr (p1, i + 3)"
    using tournamentSelection_ok[OF assms] by blast
  obtain p2 where p2: "tournamentSelection rnd (i + 3) pop = Inr (p2, i + 3 + 3)"
    using tournamentSelection_ok[OF assms] by blast
  obtain child i3 where c: "crossover rnd (i + 3 + 3) p1 p2 = (child, i3)"
    by (cases "crossover rnd (i + 3 + 3) p1 p2")
  obtain mutated i4 where m: "mutate rnd i3 child (mutationRate cfg) = (mutated, i4)"
    by (cases "mutate rnd i3 child (mutationRate cfg)")
  have step: "fill_population cfg rnd i pop new = fill_population cfg rnd i4 pop (new @ [mutated])"
    using lt p1 p2 c m by (subst fill_population.simps) simp
  have d: "d = populationSize cfg - length (new @ [mutated])" using Suc.hyps(2) by simp
  from Suc.hyps(1)[OF d, of i4] obtain np j where
    np: "fill_population cfg rnd i4 pop (new @ [mutated]) = Inr (np, j)"
        "length np = max (populationSize cfg) (length (new @ [mutated]))"
        "take (length (new @ [mutated])) np = new @ [mutated]"
    by blast
  have "take (length new) (take (length (new @ [mutated])) np) = take (length new) np"
    by (simp add: min_def)
  then have "take (length new) np = take (length new) (new @ [mutated])"
    by (simp only: np(3))
  then have tk: "take (length new) np = new" by simp
  have len: "length np = max (populationSize cfg) (length new)" using np(2) lt by simp
  show ?case using step np(1) tk len by simp
qed


lemma slice_from_start_length: "length (slice_from_start xs e) \<le> length xs"
  by (auto simp: slice_from_start_def)

lemma evolveGeneration_ok:
  assumes "valid_rng rnd" "pop \<noteq> []" "length pop = populationSize cfg"
  shows "\<exists>np j. evolveGeneration cfg rnd i pop = Inr (np, j) \<and> length np = populationSize cfg \<and>
           take (length (slice_from_start pop (eliteCount cfg))) np = slice_from_start pop (eliteCount cfg)"
proof -
  from fill_population_ok[OF assms(1,2), of cfg i "slice_from_start pop (eliteCount cfg)"]
  obtain np j where np: "fill_population cfg rnd i pop (slice_from_start pop (eliteCount cfg)) = Inr (np, j)"
    "length np = max (populationSize cfg) (length (slice_from_start pop (eliteCount cfg)))"
    "take (length (slice_from_start pop (eliteCount cfg))) np = slice_from_start pop (eliteCount cfg)"
    by blast
  have "length np = populationSize cfg"
    using np(2) slice_from_start_length[of pop "eliteCount cfg"] assms(3) by simp
  then show ?thesis using np by (simp add: evolveGeneration_def)
qed

lemma prepared_length: "length (sort_population (evaluateFitness f pop)) = length pop"
  by (simp add: sort_population_def evaluateFitness_def)

lemma evolve_step_ok:
  assumes "valid_rng rnd" "0 < populationSize (evo_config sim)"
    "length (population sim) = populationSize (evo_config sim)"
  shows "\<exists>sim' j d. evolve_step f rnd gen i sim = Inr (sim', j) \<and>
           evo_config sim' = evo_config sim \<and>
           length (population sim') = populationSize (evo_config sim) \<and>
           generationHistory sim' = generationHistory sim @ [d] \<and> generation d = gen"
proof -
  let ?pop = "sort_population (evaluateFitness f (population sim))"
  have len: "length ?pop = populationSize (evo_config sim)"
    using assms(3) by (simp add: prepared_length)
  then obtain best rest where pop: "?pop = best # rest" using assms(2) by (cases ?pop) auto
  then have ne: "?pop \<noteq> []" by simp
  from evolveGeneration_ok[OF assms(1) ne len, of i] obtain np j where
    np: "evolveGeneration (evo_config sim) rnd i ?pop = Inr (np, j)"
        "length np = populationSize (evo_config sim)"
    by blast
  show ?thesis using pop np by (simp add: evolve_step_def Let_def)
qed

lemma evolve_loop_ok:
  assumes "valid_rng rnd"
  shows "0 < populationSize (evo_config sim) \<Longrightarrow>
         length (population sim) = populationSize (evo_config sim) \<Longrightarrow>
         \<exists>sim' j ds. evolve_loop f rnd n gen i sim = Inr (sim', j) \<and>
           evo_config sim' = evo_config sim \<and>
           length (population sim') = populationSize (evo_config sim) \<and>
           generationHistory sim' = generationHistory sim @ ds \<and>
           map generation ds = [gen..<gen + n]"
proof (induction n arbitrary: gen i sim)
  case 0
  then show ?case by simp
next
  case (Suc n)
  from evolve_step_ok[OF assms Suc.prems, of f gen i] obtain sim1 j1 d where
    s1: "evolve_step f rnd gen i sim = Inr (sim1, j1)" "evo_config sim1 = evo_config sim"
        "length (population sim1) = populationSize (evo_config sim)"
        "generationHistory sim1 = generationHistory sim @ [d]" "generation d = gen"
    by blast
  have a: "0 < populationSize (evo_config sim1)" using s1(2) Suc.prems(1) by simp
  have b: "length (population sim1) = populationSize (evo_config sim1)" using s1(2,3) by simp
  from Suc.IH[OF a b, of "Suc gen" j1] obtain sim' j ds where
    r: "evolve_loop f rnd n (Suc gen) j1 sim1 = Inr (sim', j)" "evo_config sim' = evo_config sim1"
       "length (population sim') = populationSize (evo_config sim1)"
       "generationHistory sim' = generationHistory sim1 @ ds"
       "map generation ds = [Suc gen..<Suc gen + n]"
    by blast
  have "map generation (d # ds) = [gen..<gen + Suc n]"
    using r(5) s1(5) by (simp add: upt_conv_Cons)
  moreover have "generationHistory sim' = generationHistory sim @ (d # ds)"
    using r(4) s1(4) by simp
  ultimately show ?case using s1(1,2) r(1,2,3) by auto
qed

lemma evo_initialize_fields:
  "evo_config (fst (evo_initialize rnd i sim g)) = evo_config sim"
  "length (population (fst (evo_initialize rnd i sim g))) = populationSize (evo_config sim)"
  "generationHistory (fst (evo_initialize rnd i sim g)) = generationHistory sim"
  by (simp_all add: evo_initialize_def)


lemma evolve_unfold:
  assumes "start = (if length (population sim) = 0
                    then evo_initialize rnd i sim
                      (case population sim of
                         [] \<Rightarrow> 5
                       | first # rest \<Rightarrow> if length (genes first) = 0 then 5 else length (genes first))
                    else (sim, i))"
    and "evolve_loop f rnd (generations (evo_config (fst start))) 0 (snd start) (fst start) = Inr (sim1, j)"
    and "sort_population (evaluateFitness f (population sim1)) = best # rest"
  shows "evolve f rnd i sim =
           Inr (\<lparr> result_generations = generationHistory sim1,
                  finalFitness = fitness best,
                  bestSolution = genes best,
                  result_convergence = evo_calculateConvergence (generationHistory sim1) \<rparr>,
                sim1\<lparr> population := best # rest \<rparr>, j)"
  unfolding evolve_def Let_def assms(1)[symmetric] case_prod_beta assms(2)
  by (simp add: assms(3))

lemma evolve_appends:
  assumes "valid_rng rnd"
    and "0 < populationSize (evo_config sim)"
    and "population sim = [] \<or> length (population sim) = populationSize (evo_config sim)"
  shows "\<exists>res sim' j ds. evolve f rnd i sim = Inr (res, sim', j) \<and>
           result_generations res = generationHistory sim @ ds \<and>
           map generation ds = [0..<generations (evo_config sim)] \<and>
           generationHistory sim' = result_generations res \<and>
           evo_config sim' = evo_config sim \<and>
           length (population sim') = populationSize (evo_config sim)"
proof -
  define start where "start = (if length (population sim) = 0
                    then evo_initialize rnd i sim
                      (case population sim of
                         [] \<Rightarrow> 5
                       | first # rest \<Rightarrow> if length (genes first) = 0 then 5 else length (genes first))
                    else (sim, i))"
  have cfg: "evo_config (fst start) = evo_config sim"
    and len: "length (population (fst start)) = populationSize (evo_config sim)"
    and hist: "generationHistory (fst start) = generationHistory sim"
    using assms(2,3) by (auto simp: start_def evo_initialize_fields)
  have a: "0 < populationSize (evo_config (fst start))" using cfg assms(2) by simp
  have b: "length (population (fst start)) = populationSize (evo_config (fst start))"
    using cfg len by simp
  from evolve_loop_ok[OF assms(1) a b, of f "generations (evo_config (fst start))" 0 "snd start"]
  obtain sim1 j ds where
    l: "evolve_loop f rnd (generations (evo_config (fst start))) 0 (snd start) (fst start) = Inr (sim1, j)"
       "evo_config sim1 = evo_config (fst start)"
       "length (population sim1) = populationSize (evo_config (fst start))"
       "generationHistory sim1 = generationHistory (fst start) @ ds"
       "map generation ds = [0..<0 + generations (evo_config (fst start))]"
    by blast
  have pl: "length (sort_population (evaluateFitness f (population sim1))) = populationSize (evo_config sim)"
    using l(3) cfg by (simp add: prepared_length)
  then obtain best rest where s: "sort_population (evaluateFitness f (population sim1)) = best # rest"
    using assms(2) by (cases "sort_population (evaluateFitness f (population sim1))") auto
  have h: "generationHistory sim1 = generationHistory sim @ ds" using l(4) hist by simp
  have m: "map generation ds = [0..<generations (evo_config sim)]" using l(5) cfg by simp
  have c: "evo_config sim1 = evo_config sim" using l(2) cfg by simp
  have pl': "length (best # rest) = populationSize (evo_config sim)" using pl s by simp
  show ?thesis
    using evolve_unfold[OF start_def l(1) s] h m c pl' by simp
qed

text \<open>
  C7, amended. With a population size of at least 1, one call of \<^verbatim>\<open>evolve\<close> on a
  fresh simulator (no generation recorded yet, the population empty or as
  \<^verbatim>\<open>initialize\<close> made it) returns, and its \<^verbatim>\<open>generations\<close> array holds exactly one
  entry for each of the configured generations, numbered \<open>0, 1, ...\<close> in order: the
  convergence value is computed after the loop and stops nothing.
\<close>

theorem evolve_runs_all_generations:
  assumes "valid_rng rnd"
    and "0 < populationSize (evo_config sim)"
    and "population sim = [] \<or> length (population sim) = populationSize (evo_config sim)"
    and "generationHistory sim = []"
  shows "\<exists>res sim' j. evolve f rnd i sim = Inr (res, sim', j) \<and>
           length (result_generations res) = generations (evo_config sim) \<and>
           map generation (result_generations res) = [0..<generations (evo_config sim)]"
proof -
  from evolve_appends[OF assms(1,2,3), of f i] obtain res sim' j ds where
    r: "evolve f rnd i sim = Inr (res, sim', j)"
       "result_generations res = generationHistory sim @ ds"
       "map generation ds = [0..<generations (evo_config sim)]"
    by blast
  have m: "map generation (result_generations res) = [0..<generations (evo_config sim)]"
    using r(2,3) assms(4) by simp
  then have "length (map generation (result_generations res)) = generations (evo_config sim)"
    by simp
  then have "length (result_generations res) = generations (evo_config sim)" by simp
  then show ?thesis using r(1) m by blast
qed

theorem evolve_runs_all_generations_witness:
  "valid_rng (\<lambda>n. 0) \<and>
   0 < populationSize (evo_config (EvolutionarySimulator
       \<lparr> opt_populationSize = Some 2, opt_generations = Some 3, opt_mutationRate = None,
         opt_selectionPressure = None, opt_fitnessFunction = None \<rparr>)) \<and>
   population (EvolutionarySimulator
       \<lparr> opt_populationSize = Some 2, opt_generations = Some 3, opt_mutationRate = None,
         opt_selectionPressure = None, opt_fitnessFunction = None \<rparr>) = [] \<and>
   generationHistory (EvolutionarySimulator
       \<lparr> opt_populationSize = Some 2, opt_generations = Some 3, opt_mutationRate = None,
         opt_selectionPressure = None, opt_fitnessFunction = None \<rparr>) = [] \<and>
   (\<exists>res sim' j. evolve None (\<lambda>n. 0) 0 (EvolutionarySimulator
       \<lparr> opt_populationSize = Some 2, opt_generations = Some 3, opt_mutationRate = None,
         opt_selectionPressure = None, opt_fitnessFunction = None \<rparr>) = Inr (res, sim', j) \<and>
      length (result_generations res) = 3 \<and>
      map generation (result_generations res) = [0, 1, 2])"
proof -
  let ?sim = "EvolutionarySimulator
       \<lparr> opt_populationSize = Some 2, opt_generations = Some 3, opt_mutationRate = None,
         opt_selectionPressure = None, opt_fitnessFunction = None \<rparr>"
  have v: "valid_rng (\<lambda>n. 0)" by (simp add: valid_rng_def)
  have n: "0 < populationSize (evo_config ?sim)"
    by (simp add: EvolutionarySimulator_def or_default_def)
  have p: "population ?sim = []" by (simp add: EvolutionarySimulator_def)
  have h: "generationHistory ?sim = []" by (simp add: EvolutionarySimulator_def)
  have g: "generations (evo_config ?sim) = 3" by (simp add: EvolutionarySimulator_def or_default_def)
  have u: "[0..<3] = [0, 1, 2::nat]" by (simp add: upt_rec)
  from p have p': "population ?sim = [] \<or>
      length (population ?sim) = populationSize (evo_config ?sim)" by simp
  from evolve_runs_all_generations[OF v n p' h, of None 0] g u
  have "\<exists>res sim' j. evolve None (\<lambda>n. 0) 0 ?sim = Inr (res, sim', j) \<and>
      length (result_generations res) = 3 \<and>
      map generation (result_generations res) = [0, 1, 2]" by simp
  then show ?thesis using v n p h by blast
qed

text \<open>
  C7 as stated fails for a population size of 0: the first generation reads the
  fitness of \<^verbatim>\<open>population[0]\<close>, which does not exist, and the call throws.
\<close>

theorem evolve_empty_population_throws:
  "evolve None (\<lambda>n. 0) 0 (EvolutionarySimulator
       \<lparr> opt_populationSize = Some 0, opt_generations = Some 1, opt_mutationRate = None,
         opt_selectionPressure = None, opt_fitnessFunction = None \<rparr>) = Inl TypeError"
  by (simp add: evolve_def EvolutionarySimulator_def or_default_def evo_initialize_def
      evolve_step_def sort_population_def evaluateFitness_def)

lemma sort_population_head:
  assumes "sort_population pop = best # rest" "ind \<in> set pop"
  shows "fitness ind \<le> fitness best"
proof -
  have "sorted (map (\<lambda>individual. - fitness individual) (sort_population pop))"
    unfolding sort_population_def by (rule sorted_sort_key)
  then have "\<forall>y\<in>set rest. - fitness best \<le> - fitness y" using assms(1) by simp
  moreover have "ind \<in> set (best # rest)"
    using assms unfolding sort_population_def[symmetric]
    by (metis set_sort sort_population_def)
  ultimately show ?thesis by auto
qed

lemma evaluateFitness_default:
  "ind \<in> set (evaluateFitness None pop) \<Longrightarrow> fitness ind = defaultFitnessFunction (genes ind)"
  "x \<in> set pop \<Longrightarrow> \<exists>ind\<in>set (evaluateFitness None pop). genes ind = genes x"
  by (auto simp: evaluateFitness_def)

lemma elite_head:
  "1 \<le> e \<Longrightarrow> slice_from_start (best # rest) e = best # take (nat e - 1) rest"
  by (cases "nat e") (auto simp: slice_from_start_def)

lemma eliteCount_positive_size:
  assumes "1 \<le> eliteCount cfg" shows "0 < populationSize cfg"
proof (rule ccontr)
  assume "\<not> 0 < populationSize cfg"
  then have "eliteCount cfg = 0" by (simp add: eliteCount_def)
  then show False using assms by simp
qed

lemma evolve_step_elitism:
  assumes "valid_rng rnd" "1 \<le> eliteCount (evo_config sim)"
    "length (population sim) = populationSize (evo_config sim)"
  shows "\<exists>sim' j d. evolve_step None rnd gen i sim = Inr (sim', j) \<and>
           evo_config sim' = evo_config sim \<and>
           length (population sim') = populationSize (evo_config sim) \<and>
           generationHistory sim' = generationHistory sim @ [d] \<and>
           (\<forall>ind\<in>set (population sim). defaultFitnessFunction (genes ind) \<le> bestFitness d) \<and>
           (\<exists>ind\<in>set (population sim'). defaultFitnessFunction (genes ind) = bestFitness d)"
proof -
  let ?ev = "evaluateFitness None (population sim)"
  let ?pop = "sort_population ?ev"
  have pos: "0 < populationSize (evo_config sim)" using eliteCount_positive_size[OF assms(2)] .
  have len: "length ?pop = populationSize (evo_config sim)"
    using assms(3) by (simp add: prepared_length)
  then obtain best rest where pop: "?pop = best # rest" using pos by (cases ?pop) auto
  then have ne: "?pop \<noteq> []" by simp
  from evolveGeneration_ok[OF assms(1) ne len, of i] obtain np j where
    np: "evolveGeneration (evo_config sim) rnd i ?pop = Inr (np, j)"
        "length np = populationSize (evo_config sim)"
        "take (length (slice_from_start ?pop (eliteCount (evo_config sim)))) np =
           slice_from_start ?pop (eliteCount (evo_config sim))"
    by blast
  let ?d = "\<lparr> generation = gen, avgFitness = getAverageFitness ?pop,
              bestFitness = fitness best, diversity = calculateDiversity ?pop \<rparr>"
  have step: "evolve_step None rnd gen i sim =
      Inr (sim\<lparr> population := np, generationHistory := generationHistory sim @ [?d] \<rparr>, j)"
    using pop np(1) by (simp add: evolve_step_def Let_def)
  have best_in: "best \<in> set ?ev"
    using pop by (metis list.set_intros(1) set_sort sort_population_def)
  have best_fit: "fitness best = defaultFitnessFunction (genes best)"
    using evaluateFitness_default(1)[OF best_in] .
  have upper: "defaultFitnessFunction (genes ind) \<le> fitness best" if "ind \<in> set (population sim)" for ind
  proof -
    from evaluateFitness_default(2)[OF that] obtain e where
      e: "e \<in> set ?ev" "genes e = genes ind" by blast
    have "fitness e \<le> fitness best" using sort_population_head[OF pop e(1)] .
    then show ?thesis using evaluateFitness_default(1)[OF e(1)] e(2) by simp
  qed
  have "take (length (best # take (nat (eliteCount (evo_config sim)) - 1) rest)) np =
          best # take (nat (eliteCount (evo_config sim)) - 1) rest"
    using np(3) pop elite_head[OF assms(2), of best rest] by simp
  then have "best \<in> set np"
    by (metis in_set_takeD list.set_intros(1))
  then have kept: "\<exists>ind\<in>set np. defaultFitnessFunction (genes ind) = fitness best"
    using best_fit by auto
  show ?thesis using step np(2) upper kept by simp
qed

lemma evolve_loop_elitism:
  assumes "valid_rng rnd"
  shows "1 \<le> eliteCount (evo_config sim) \<Longrightarrow>
         length (population sim) = populationSize (evo_config sim) \<Longrightarrow>
         \<exists>ind\<in>set (population sim). b \<le> defaultFitnessFunction (genes ind) \<Longrightarrow>
         \<exists>sim' j ds. evolve_loop None rnd n gen i sim = Inr (sim', j) \<and>
           generationHistory sim' = generationHistory sim @ ds \<and>
           sorted (map bestFitness ds) \<and> list_all (\<lambda>d. b \<le> bestFitness d) ds"
proof (induction n arbitrary: gen i sim b)
  case 0
  then show ?case by simp
next
  case (Suc n)
  from evolve_step_elitism[OF assms Suc.prems(1,2), of gen i] obtain sim1 j1 d where
    s1: "evolve_step None rnd gen i sim = Inr (sim1, j1)" "evo_config sim1 = evo_config sim"
        "length (population sim1) = populationSize (evo_config sim)"
        "generationHistory sim1 = generationHistory sim @ [d]"
        "\<forall>ind\<in>set (population sim). defaultFitnessFunction (genes ind) \<le> bestFitness d"
        "\<exists>ind\<in>set (population sim1). defaultFitnessFunction (genes ind) = bestFitness d"
    by blast
  have bd: "b \<le> bestFitness d" using Suc.prems(3) s1(5) by force
  have a: "1 \<le> eliteCount (evo_config sim1)" using s1(2) Suc.prems(1) by simp
  have l: "length (population sim1) = populationSize (evo_config sim1)" using s1(2,3) by simp
  have k: "\<exists>ind\<in>set (population sim1). bestFitness d \<le> defaultFitnessFunction (genes ind)"
    using s1(6) by force
  from Suc.IH[OF a l k, of "Suc gen" j1] obtain sim' j ds where
    r: "evolve_loop None rnd n (Suc gen) j1 sim1 = Inr (sim', j)"
       "generationHistory sim' = generationHistory sim1 @ ds"
       "sorted (map bestFitness ds)" "list_all (\<lambda>x. bestFitness d \<le> bestFitness x) ds"
    by blast
  have "generationHistory sim' = generationHistory sim @ (d # ds)" using r(2) s1(4) by simp
  moreover have "sorted (map bestFitness (d # ds))" using r(3,4) by (simp add: list_all_iff)
  moreover have "list_all (\<lambda>x. b \<le> bestFitness x) (d # ds)"
    using r(4) bd by (auto simp: list_all_iff)
  ultimately show ?case using s1(1) r(1) by auto
qed

text \<open>
  C4, amended. With the default fitness function and an elite of at least one
  individual (\<open>floor (populationSize * selectionPressure) \<ge> 1\<close>), a call of \<^verbatim>\<open>evolve\<close>
  on a fresh simulator returns, and the recorded best fitness is non-decreasing from
  each generation to the next.
\<close>

theorem best_fitness_monotone_with_elite:
  assumes "valid_rng rnd"
    and "1 \<le> eliteCount (evo_config sim)"
    and "population sim = [] \<or> length (population sim) = populationSize (evo_config sim)"
    and "generationHistory sim = []"
  shows "\<exists>res sim' j. evolve None rnd i sim = Inr (res, sim', j) \<and>
           length (result_generations res) = generations (evo_config sim) \<and>
           sorted (map bestFitness (result_generations res))"
proof -
  define start where "start = (if length (population sim) = 0
                    then evo_initialize rnd i sim
                      (case population sim of
                         [] \<Rightarrow> 5
                       | first # rest \<Rightarrow> if length (genes first) = 0 then 5 else length (genes first))
                    else (sim, i))"
  have pos: "0 < populationSize (evo_config sim)" using eliteCount_positive_size[OF assms(2)] .
  have cfg: "evo_config (fst start) = evo_config sim"
    and len: "length (population (fst start)) = populationSize (evo_config sim)"
    and hist: "generationHistory (fst start) = []"
    using assms(3,4) pos by (auto simp: start_def evo_initialize_fields)
  have a: "1 \<le> eliteCount (evo_config (fst start))" using cfg assms(2) by simp
  have b: "length (population (fst start)) = populationSize (evo_config (fst start))"
    using cfg len by simp
  obtain first rest0 where pop0: "population (fst start) = first # rest0"
    using len pos by (cases "population (fst start)") auto
  then have c: "\<exists>ind\<in>set (population (fst start)).
      defaultFitnessFunction (genes first) \<le> defaultFitnessFunction (genes ind)" by auto
  from evolve_loop_elitism[OF assms(1) a b c, of "generations (evo_config (fst start))" 0 "snd start"]
  obtain sim1 j ds where
    l: "evolve_loop None rnd (generations (evo_config (fst start))) 0 (snd start) (fst start) = Inr (sim1, j)"
       "generationHistory sim1 = generationHistory (fst start) @ ds"
       "sorted (map bestFitness ds)"
    by blast
  from evolve_appends[OF assms(1) pos assms(3), of None i] obtain res sim' j' ds' where
    r: "evolve None rnd i sim = Inr (res, sim', j')"
       "result_generations res = generationHistory sim @ ds'"
       "map generation ds' = [0..<generations (evo_config sim)]"
    by blast
  have "length (map generation ds') = generations (evo_config sim)" using r(3) by simp
  then have n: "length (result_generations res) = generations (evo_config sim)"
    using r(2) assms(4) by simp
  from evolve_loop_ok[OF assms(1), of "fst start" None "generations (evo_config (fst start))" 0 "snd start"]
    b pos cfg l(1)
  have pl: "length (population sim1) = populationSize (evo_config sim)" by auto
  then obtain best rest where s: "sort_population (evaluateFitness None (population sim1)) = best # rest"
    using pos by (cases "sort_population (evaluateFitness None (population sim1))")
      (auto simp: prepared_length dest: arg_cong[where f = length])
  have "result_generations res = generationHistory sim1"
    using evolve_unfold[OF start_def l(1) s] r(1) by simp
  then have "sorted (map bestFitness (result_generations res))" using l(2,3) hist by simp
  then show ?thesis using r(1) n by blast
qed

lemmas evo_defs = evolve_step_def sort_population_def evaluateFitness_def defaultFitnessFunction_def
  getAverageFitness_def calculateDiversity_def calculateVariance_def evolveGeneration_def eliteCount_def
  slice_from_start_def fill_population.simps tournamentSelection_def nth_opt_def random_index_def
  crossover_def mutate_def Let_def

theorem best_fitness_monotone_with_elite_witness:
  "valid_rng (\<lambda>n. 0) \<and>
   1 \<le> eliteCount (evo_config (EvolutionarySimulator
       \<lparr> opt_populationSize = None, opt_generations = None, opt_mutationRate = None,
         opt_selectionPressure = None, opt_fitnessFunction = None \<rparr>)) \<and>
   population (EvolutionarySimulator
       \<lparr> opt_populationSize = None, opt_generations = None, opt_mutationRate = None,
         opt_selectionPressure = None, opt_fitnessFunction = None \<rparr>) = [] \<and>
   generationHistory (EvolutionarySimulator
       \<lparr> opt_populationSize = None, opt_generations = None, opt_mutationRate = None,
         opt_selectionPressure = None, opt_fitnessFunction = None \<rparr>) = [] \<and>
   (\<exists>res sim' j. evolve None (\<lambda>n. 0) 0 (EvolutionarySimulator
       \<lparr> opt_populationSize = None, opt_generations = None, opt_mutationRate = None,
         opt_selectionPressure = None, opt_fitnessFunction = None \<rparr>) = Inr (res, sim', j) \<and>
      length (result_generations res) = 100 \<and>
      sorted (map bestFitness (result_generations res)))"
proof -
  let ?sim = "EvolutionarySimulator
       \<lparr> opt_populationSize = None, opt_generations = None, opt_mutationRate = None,
         opt_selectionPressure = None, opt_fitnessFunction = None \<rparr>"
  have v: "valid_rng (\<lambda>n. 0)" by (simp add: valid_rng_def)
  have e: "1 \<le> eliteCount (evo_config ?sim)"
    by (simp add: EvolutionarySimulator_def or_default_def eliteCount_def)
  have p: "population ?sim = []" by (simp add: EvolutionarySimulator_def)
  have h: "generationHistory ?sim = []" by (simp add: EvolutionarySimulator_def)
  have g: "generations (evo_config ?sim) = 100" by (simp add: EvolutionarySimulator_def or_default_def)
  from p have p': "population ?sim = [] \<or>
      length (population ?sim) = populationSize (evo_config ?sim)" by simp
  from best_fitness_monotone_with_elite[OF v e p' h, of 0] g
  have "\<exists>res sim' j. evolve None (\<lambda>n. 0) 0 ?sim = Inr (res, sim', j) \<and>
      length (result_generations res) = 100 \<and>
      sorted (map bestFitness (result_generations res))" by simp
  then show ?thesis using v e p h by blast
qed

text \<open>
  C4 as stated fails when the elite is empty: with a population of 2 and the default
  selection pressure 0.2 no individual is copied, and with draws that mutate every
  child downwards the best fitness falls from 0.81 to 0.64.
\<close>

lemma no_elite_start:
  "evo_initialize (\<lambda>n. if n < 2 then 9 / 10 else 0) 0 (EvolutionarySimulator
      \<lparr> opt_populationSize = Some 2, opt_generations = Some 2, opt_mutationRate = Some 1,
        opt_selectionPressure = None, opt_fitnessFunction = None \<rparr>) 1 =
   (\<lparr> evo_config = \<lparr> populationSize = 2, generations = 2, mutationRate = 1,
         selectionPressure = 1 / 5, fitnessFunction = ''default'' \<rparr>,
      population = [\<lparr> genes = [9 / 10], fitness = 0 \<rparr>, \<lparr> genes = [9 / 10], fitness = 0 \<rparr>],
      generationHistory = [] \<rparr>, 2)"
  by (simp add: evo_initialize_def EvolutionarySimulator_def or_default_def upt2)

lemma no_elite_step0:
  "evolve_step None (\<lambda>n. if n < 2 then 9 / 10 else 0) 0 2
     \<lparr> evo_config = \<lparr> populationSize = 2, generations = 2, mutationRate = 1,
         selectionPressure = 1 / 5, fitnessFunction = ''default'' \<rparr>,
      population = [\<lparr> genes = [9 / 10], fitness = 0 \<rparr>, \<lparr> genes = [9 / 10], fitness = 0 \<rparr>],
      generationHistory = [] \<rparr> =
   Inr (\<lparr> evo_config = \<lparr> populationSize = 2, generations = 2, mutationRate = 1,
           selectionPressure = 1 / 5, fitnessFunction = ''default'' \<rparr>,
         population = [\<lparr> genes = [4 / 5], fitness = 0 \<rparr>, \<lparr> genes = [4 / 5], fitness = 0 \<rparr>],
         generationHistory =
           [\<lparr> generation = 0, avgFitness = 81 / 100, bestFitness = 81 / 100,
              diversity = Some 0 \<rparr>] \<rparr>, 20)"
  by (simp add: evo_defs power2_eq_square)

lemma no_elite_step1:
  "evolve_step None (\<lambda>n. if n < 2 then 9 / 10 else 0) (Suc 0) 20
     \<lparr> evo_config = \<lparr> populationSize = 2, generations = 2, mutationRate = 1,
           selectionPressure = 1 / 5, fitnessFunction = ''default'' \<rparr>,
         population = [\<lparr> genes = [4 / 5], fitness = 0 \<rparr>, \<lparr> genes = [4 / 5], fitness = 0 \<rparr>],
         generationHistory =
           [\<lparr> generation = 0, avgFitness = 81 / 100, bestFitness = 81 / 100,
              diversity = Some 0 \<rparr>] \<rparr> =
   Inr (\<lparr> evo_config = \<lparr> populationSize = 2, generations = 2, mutationRate = 1,
           selectionPressure = 1 / 5, fitnessFunction = ''default'' \<rparr>,
         population = [\<lparr> genes = [7 / 10], fitness = 0 \<rparr>, \<lparr> genes = [7 / 10], fitness = 0 \<rparr>],
         generationHistory =
           [\<lparr> generation = 0, avgFitness = 81 / 100, bestFitness = 81 / 100,
              diversity = Some 0 \<rparr>,
            \<lparr> generation = 1, avgFitness = 16 / 25, bestFitness = 16 / 25,
              diversity = Some 0 \<rparr>] \<rparr>, 38)"
  by (simp add: evo_defs power2_eq_square)

theorem best_fitness_drops_without_elite:
  "evolve None (\<lambda>n. if n < 2 then 9 / 10 else 0) 2
     (fst (evo_initialize (\<lambda>n. if n < 2 then 9 / 10 else 0) 0 (EvolutionarySimulator
        \<lparr> opt_populationSize = Some 2, opt_generations = Some 2, opt_mutationRate = Some 1,
          opt_selectionPressure = None, opt_fitnessFunction = None \<rparr>) 1)) =
   Inr (\<lparr> result_generations =
           [\<lparr> generation = 0, avgFitness = 81 / 100, bestFitness = 81 / 100,
              diversity = Some 0 \<rparr>,
            \<lparr> generation = 1, avgFitness = 16 / 25, bestFitness = 16 / 25,
              diversity = Some 0 \<rparr>],
          finalFitness = 49 / 100,
          bestSolution = [7 / 10],
          result_convergence = 1999711 / 2000000 \<rparr>,
        \<lparr> evo_config = \<lparr> populationSize = 2, generations = 2, mutationRate = 1,
            selectionPressure = 1 / 5, fitnessFunction = ''default'' \<rparr>,
          population = [\<lparr> genes = [7 / 10], fitness = 49 / 100 \<rparr>,
                        \<lparr> genes = [7 / 10], fitness = 49 / 100 \<rparr>],
          generationHistory =
           [\<lparr> generation = 0, avgFitness = 81 / 100, bestFitness = 81 / 100,
              diversity = Some 0 \<rparr>,
            \<lparr> generation = 1, avgFitness = 16 / 25, bestFitness = 16 / 25,
              diversity = Some 0 \<rparr>] \<rparr>,
        38) \<and>
   \<not> sorted [81 / 100, 16 / 25 :: real]"
proof -
  let ?rnd = "\<lambda>n::nat. if n < 2 then 9 / 10 else (0::real)"
  let ?cfg = "\<lparr> populationSize = 2, generations = 2, mutationRate = 1,
         selectionPressure = 1 / 5, fitnessFunction = ''default'' \<rparr>"
  let ?sim0 = "\<lparr> evo_config = ?cfg,
      population = [\<lparr> genes = [9 / 10], fitness = 0 \<rparr>, \<lparr> genes = [9 / 10], fitness = 0 \<rparr>],
      generationHistory = [] \<rparr>"
  let ?hist = "[\<lparr> generation = 0, avgFitness = 81 / 100, bestFitness = 81 / 100,
              diversity = Some 0 \<rparr>,
            \<lparr> generation = 1, avgFitness = 16 / 25, bestFitness = 16 / 25,
              diversity = Some 0 \<rparr>]"
  let ?sim2 = "\<lparr> evo_config = ?cfg,
         population = [\<lparr> genes = [7 / 10], fitness = 0 \<rparr>, \<lparr> genes = [7 / 10], fitness = 0 \<rparr>],
         generationHistory = ?hist \<rparr>"
  have loop: "evolve_loop None ?rnd (Suc (Suc 0)) 0 2 ?sim0 = Inr (?sim2, 38)"
    by (simp only: evolve_loop.simps no_elite_step0 no_elite_step1 sum.case prod.case)
  have loop2: "evolve_loop None ?rnd 2 0 2 ?sim0 = Inr (?sim2, 38)"
    using loop by (simp only: numeral_2_eq_2)
  have start: "(?sim0, 2) = (if length (population ?sim0) = 0
                    then evo_initialize ?rnd 2 ?sim0
                      (case population ?sim0 of
                         [] \<Rightarrow> 5
                       | first # rest \<Rightarrow> if length (genes first) = 0 then 5 else length (genes first))
                    else (?sim0, 2))" by simp
  have loop': "evolve_loop None ?rnd (generations (evo_config (fst (?sim0, 2::nat)))) 0
      (snd (?sim0, 2::nat)) (fst (?sim0, 2::nat)) = Inr (?sim2, 38)"
    using loop2 by simp
  have final_pop: "sort_population (evaluateFitness None (population ?sim2)) =
      \<lparr> genes = [7 / 10], fitness = 49 / 100 \<rparr> # [\<lparr> genes = [7 / 10], fitness = 49 / 100 \<rparr>]"
    by (simp add: sort_population_def evaluateFitness_def defaultFitnessFunction_def)
  have conv: "evo_calculateConvergence ?hist = 1999711 / 2000000"
    by (simp add: evo_calculateConvergence_def calculateVariance_def power2_eq_square)
  have ns: "\<not> sorted [81 / 100, 16 / 25 :: real]" by (simp only: sorted2) simp
  have st: "fst (evo_initialize ?rnd 0 (EvolutionarySimulator
        \<lparr> opt_populationSize = Some 2, opt_generations = Some 2, opt_mutationRate = Some 1,
          opt_selectionPressure = None, opt_fitnessFunction = None \<rparr>) 1) = ?sim0"
    by (simp only: no_elite_start fst_conv)
  have run: "evolve None ?rnd 2 ?sim0 =
      Inr (\<lparr> result_generations = ?hist, finalFitness = 49 / 100, bestSolution = [7 / 10],
             result_convergence = 1999711 / 2000000 \<rparr>,
           ?sim2\<lparr> population := [\<lparr> genes = [7 / 10], fitness = 49 / 100 \<rparr>,
                                   \<lparr> genes = [7 / 10], fitness = 49 / 100 \<rparr>] \<rparr>, 38)"
    using evolve_unfold[OF start loop' final_pop] conv by simp
  show ?thesis
    unfolding st using run ns by (intro conjI) simp_all
qed

section \<open>State kept between calls\<close>

lemma epr_step_scenario: "scenario (fst (epr_step rnd i sim)) = scenario sim"
  by (simp add: epr_step_def Let_def split: prod.splits)

lemma epr_loop_scenario: "scenario (fst (epr_loop rnd n i sim h)) = scenario sim"
proof (induction n arbitrary: i sim h)
  case 0
  then show ?case by simp
next
  case (Suc n)
  obtain sim' j where step: "epr_step rnd i sim = (sim', j)" by (cases "epr_step rnd i sim")
  then have "scenario sim' = scenario sim" using epr_step_scenario[of rnd i sim] by simp
  then show ?case using Suc.IH[of j sim' "record_state h (state sim)"] step by simp
qed

lemma EPR_simulate_fields:
  "finalState (fst (EPR_simulate rnd i sim)) = state (fst (snd (EPR_simulate rnd i sim)))"
  "scenario (fst (snd (EPR_simulate rnd i sim))) = scenario sim"
proof -
  let ?h0 = "\<lparr> history_value = [], history_stability = [], history_equity = [],
                history_reputation = [] \<rparr>"
  obtain sim' h j where l: "epr_loop rnd (steps (scenario sim)) i sim ?h0 = (sim', h, j)"
    by (cases "epr_loop rnd (steps (scenario sim)) i sim ?h0")
  then show "finalState (fst (EPR_simulate rnd i sim)) = state (fst (snd (EPR_simulate rnd i sim)))"
    by (simp add: EPR_simulate_def)
  show "scenario (fst (snd (EPR_simulate rnd i sim))) = scenario sim"
    using l epr_loop_scenario[of rnd "steps (scenario sim)" i sim ?h0] by (simp add: EPR_simulate_def)
qed

lemma recorded_states_first:
  "0 < n \<Longrightarrow> hd (recorded_states rnd n i sim) = state sim \<and> recorded_states rnd n i sim \<noteq> []"
  by (cases n) (auto split: prod.splits)

lemma EPR_second_call_starts_from_final_state:
  assumes "0 < steps (scenario sim)"
  shows "hd (history_value (history (fst (EPR_simulate rnd2 j (fst (snd (EPR_simulate rnd1 i sim))))))) =
           val (finalState (fst (EPR_simulate rnd1 i sim))) \<and>
         hd (history_stability (history (fst (EPR_simulate rnd2 j (fst (snd (EPR_simulate rnd1 i sim))))))) =
           stability (finalState (fst (EPR_simulate rnd1 i sim))) \<and>
         hd (history_equity (history (fst (EPR_simulate rnd2 j (fst (snd (EPR_simulate rnd1 i sim))))))) =
           equity (finalState (fst (EPR_simulate rnd1 i sim))) \<and>
         hd (history_reputation (history (fst (EPR_simulate rnd2 j (fst (snd (EPR_simulate rnd1 i sim))))))) =
           reputation (finalState (fst (EPR_simulate rnd1 i sim)))"
proof -
  let ?s1 = "fst (snd (EPR_simulate rnd1 i sim))"
  have sc: "steps (scenario ?s1) = steps (scenario sim)" by (simp add: EPR_simulate_fields(2))
  have f: "finalState (fst (EPR_simulate rnd1 i sim)) = state ?s1" by (rule EPR_simulate_fields(1))
  have r: "hd (recorded_states rnd2 (steps (scenario ?s1)) j ?s1) = state ?s1"
    "recorded_states rnd2 (steps (scenario ?s1)) j ?s1 \<noteq> []"
    using recorded_states_first[of "steps (scenario ?s1)" rnd2 j ?s1] assms sc by simp_all
  show ?thesis
    unfolding f EPR_simulate_history[of rnd2 j ?s1] using r by (simp add: hd_map)
qed

lemma pt_loop_last:
  "pt_loop cfg rnd n i ags ser = (ags', ser', j) \<Longrightarrow> 0 < n \<Longrightarrow>
   last (series_wealth ser') = average (map wealth ags') \<and> series_wealth ser' \<noteq> []"
proof (induction n arbitrary: i ags ser)
  case 0
  then show ?case by simp
next
  case (Suc n)
  obtain ags1 ds j1 where d: "agents_decide cfg rnd i ags = (ags1, ds, j1)"
    by (cases "agents_decide cfg rnd i ags")
  let ?ser1 = "\<lparr> series_wealth = series_wealth ser @ [average (map wealth ags1)],
                   series_risk = series_risk ser @ [average (map riskTaken ds)],
                   series_decisions = series_decisions ser @ [average (map choice ds)] \<rparr>"
  have rest: "pt_loop cfg rnd n j1 ags1 ?ser1 = (ags', ser', j)"
    using Suc.prems d by simp
  show ?case
  proof (cases n)
    case 0
    then show ?thesis using rest by auto
  next
    case (Suc m)
    then show ?thesis using Suc.IH[OF rest] by simp
  qed
qed

lemma PT_simulate_after:
  assumes "sim0 = (if length (pt_agents sim) = 0 then initialize sim 500 1000 else sim)"
    and "pt_loop (config sim0) rnd n i (pt_agents sim0)
           \<lparr> series_wealth = [], series_risk = [], series_decisions = [] \<rparr> = (ags, ser, j)"
  shows "fst (snd (PT_simulate rnd i sim n)) = sim0\<lparr> pt_agents := ags \<rparr>"
  unfolding PT_simulate_def assms(1)[symmetric] Let_def assms(2) by simp

lemma PT_second_call_continues:
  "length (pt_agents (fst (snd (PT_simulate rnd1 i sim n)))) \<noteq> 0 \<and>
   list_all2 (\<lambda>a a'. wealth a \<le> wealth a')
     (pt_agents (fst (snd (PT_simulate rnd1 i sim n))))
     (pt_agents (fst (snd (PT_simulate rnd2 j (fst (snd (PT_simulate rnd1 i sim n))) m)))) \<and>
   (0 < n \<and> 0 < m \<longrightarrow>
      last (result_wealth (fst (PT_simulate rnd1 i sim n))) \<le>
      hd (result_wealth (fst (PT_simulate rnd2 j (fst (snd (PT_simulate rnd1 i sim n))) m))))"
proof -
  let ?ser0 = "\<lparr> series_wealth = [], series_risk = [], series_decisions = [] \<rparr>"
  define sim0 where "sim0 = (if length (pt_agents sim) = 0 then initialize sim 500 1000 else sim)"
  obtain ags ser k where l: "pt_loop (config sim0) rnd1 n i (pt_agents sim0) ?ser0 = (ags, ser, k)"
    by (cases "pt_loop (config sim0) rnd1 n i (pt_agents sim0) ?ser0")
  have s1: "fst (snd (PT_simulate rnd1 i sim n)) = sim0\<lparr> pt_agents := ags \<rparr>"
    and r1: "result_wealth (fst (PT_simulate rnd1 i sim n)) = series_wealth ser"
    using PT_simulate_after[OF sim0_def l] PT_simulate_unfold(2)[OF sim0_def l] by blast+
  have ne0: "pt_agents sim0 \<noteq> []"
    using initialize_agents(1)[of sim 500 1000] by (auto simp: sim0_def)
  from pt_loop_wealth[OF l] have "length (pt_agents sim0) = length ags"
    by (auto dest: list_all2_lengthD)
  then have ne: "ags \<noteq> []" using ne0 by auto
  let ?s1 = "sim0\<lparr> pt_agents := ags \<rparr>"
  have same: "?s1 = (if length (pt_agents ?s1) = 0 then initialize ?s1 500 1000 else ?s1)"
    using ne by simp
  obtain ags2 ser2 k2 where l2: "pt_loop (config ?s1) rnd2 m j (pt_agents ?s1) ?ser0 = (ags2, ser2, k2)"
    by (cases "pt_loop (config ?s1) rnd2 m j (pt_agents ?s1) ?ser0")
  have s2: "pt_agents (fst (snd (PT_simulate rnd2 j ?s1 m))) = ags2"
    and r2: "result_wealth (fst (PT_simulate rnd2 j ?s1 m)) = series_wealth ser2"
    using PT_simulate_unfold[OF same l2] by blast+
  from pt_loop_wealth[OF l2] obtain xs where
    le: "list_all2 (\<lambda>a a'. wealth a \<le> wealth a') ags ags2" and
    xs: "series_wealth ser2 = xs" "length xs = m" "list_all (\<lambda>x. average (map wealth ags) \<le> x) xs"
    by auto
  have series: "last (series_wealth ser) \<le> hd (series_wealth ser2)" if "0 < n" "0 < m"
  proof -
    have "last (series_wealth ser) = average (map wealth ags)"
      using pt_loop_last[OF l that(1)] by simp
    moreover have "xs \<noteq> []" using xs(2) that(2) by auto
    then have "average (map wealth ags) \<le> hd xs"
      using xs(3) by (cases xs) auto
    ultimately show ?thesis using xs(1) by simp
  qed
  show ?thesis unfolding s1 r1 s2 r2 using ne le series by simp
qed

lemma evolve_second_call_appends:
  assumes "valid_rng rnd1" "valid_rng rnd2"
    and "0 < populationSize (evo_config sim)"
    and "population sim = [] \<or> length (population sim) = populationSize (evo_config sim)"
  shows "\<exists>r1 s1 j1 r2 s2 j2 ds.
           evolve f1 rnd1 i sim = Inr (r1, s1, j1) \<and> evolve f2 rnd2 j1 s1 = Inr (r2, s2, j2) \<and>
           result_generations r2 = result_generations r1 @ ds \<and>
           length ds = generations (evo_config sim)"
proof -
  from evolve_appends[OF assms(1,3,4), of f1 i] obtain r1 s1 j1 where
    a: "evolve f1 rnd1 i sim = Inr (r1, s1, j1)" "generationHistory s1 = result_generations r1"
       "evo_config s1 = evo_config sim" "length (population s1) = populationSize (evo_config sim)"
    by blast
  have p: "0 < populationSize (evo_config s1)" using a(3) assms(3) by simp
  have q: "population s1 = [] \<or> length (population s1) = populationSize (evo_config s1)"
    using a(3,4) by simp
  from evolve_appends[OF assms(2) p q, of f2 j1] obtain r2 s2 j2 ds where
    b: "evolve f2 rnd2 j1 s1 = Inr (r2, s2, j2)"
       "result_generations r2 = generationHistory s1 @ ds"
       "map generation ds = [0..<generations (evo_config s1)]"
    by blast
  have "length (map generation ds) = generations (evo_config s1)" using b(3) by simp
  then have "length ds = generations (evo_config sim)" using a(3) by simp
  then show ?thesis using a(1,2) b(1,2) by auto
qed


text \<open>
  C8, amended. The state of a run lives in the fields of the simulator object, which
  the constructor or \<^verbatim>\<open>initialize\<close> fill and which a call leaves as it ends; a second
  call on the same object starts from there. For \<^verbatim>\<open>EPRSimulator.simulate\<close> the first
  state recorded by the second call is the final state of the first call. For
  \<^verbatim>\<open>EvolutionarySimulator.evolve\<close> the \<^verbatim>\<open>generations\<close> of the second call are those
  of the first call followed by its own entries. For
  \<^verbatim>\<open>ProspectTheorySimulator.simulate\<close> the agents of the first call are kept (the
  population is not created again), their wealth only grows in the second call, and
  the first average wealth of the second call is at least the last one of the first.
\<close>

theorem state_kept_between_calls:
  "(0 < steps (scenario esim) \<longrightarrow>
      hd (history_value (history (fst (EPR_simulate rnd2 j (fst (snd (EPR_simulate rnd1 i esim))))))) =
        val (finalState (fst (EPR_simulate rnd1 i esim))) \<and>
      hd (history_stability (history (fst (EPR_simulate rnd2 j (fst (snd (EPR_simulate rnd1 i esim))))))) =
        stability (finalState (fst (EPR_simulate rnd1 i esim))) \<and>
      hd (history_equity (history (fst (EPR_simulate rnd2 j (fst (snd (EPR_simulate rnd1 i esim))))))) =
        equity (finalState (fst (EPR_simulate rnd1 i esim))) \<and>
      hd (history_reputation (history (fst (EPR_simulate rnd2 j (fst (snd (EPR_simulate rnd1 i esim))))))) =
        reputation (finalState (fst (EPR_simulate rnd1 i esim)))) \<and>
   (valid_rng rnd1 \<and> valid_rng rnd2 \<and> 0 < populationSize (evo_config osim) \<and>
    (population osim = [] \<or> length (population osim) = populationSize (evo_config osim)) \<longrightarrow>
      (\<exists>r1 s1 j1 r2 s2 j2 ds.
         evolve f1 rnd1 i osim = Inr (r1, s1, j1) \<and> evolve f2 rnd2 j1 s1 = Inr (r2, s2, j2) \<and>
         result_generations r2 = result_generations r1 @ ds \<and>
         length ds = generations (evo_config osim))) \<and>
   length (pt_agents (fst (snd (PT_simulate rnd1 i psim n)))) \<noteq> 0 \<and>
   list_all2 (\<lambda>a a'. wealth a \<le> wealth a')
     (pt_agents (fst (snd (PT_simulate rnd1 i psim n))))
     (pt_agents (fst (snd (PT_simulate rnd2 j (fst (snd (PT_simulate rnd1 i psim n))) m)))) \<and>
   (0 < n \<and> 0 < m \<longrightarrow>
      last (result_wealth (fst (PT_simulate rnd1 i psim n))) \<le>
      hd (result_wealth (fst (PT_simulate rnd2 j (fst (snd (PT_simulate rnd1 i psim n))) m))))"
  using EPR_second_call_starts_from_final_state[of esim rnd2 j rnd1 i]
    evolve_second_call_appends[of rnd1 rnd2 osim f1 i f2]
    PT_second_call_continues[of rnd1 i psim n rnd2 j m]
  by blast


theorem state_kept_between_calls_witness:
  "0 < steps (scenario (EPRSimulator demographicsCollapse)) \<and>
   hd (history_stability (history (fst (EPR_simulate (\<lambda>n. 0) 0
         (fst (snd (EPR_simulate (\<lambda>n. 0) 0 (EPRSimulator demographicsCollapse)))))))) =
     stability (finalState (fst (EPR_simulate (\<lambda>n. 0) 0 (EPRSimulator demographicsCollapse)))) \<and>
   valid_rng (\<lambda>n. 0) \<and>
   0 < populationSize (evo_config (EvolutionarySimulator
         \<lparr> opt_populationSize = Some 1, opt_generations = Some 1, opt_mutationRate = None,
           opt_selectionPressure = None, opt_fitnessFunction = None \<rparr>)) \<and>
   population (EvolutionarySimulator
         \<lparr> opt_populationSize = Some 1, opt_generations = Some 1, opt_mutationRate = None,
           opt_selectionPressure = None, opt_fitnessFunction = None \<rparr>) = [] \<and>
   (\<exists>r1 s1 j1 r2 s2 j2 ds.
      evolve None (\<lambda>n. 0) 0 (EvolutionarySimulator
         \<lparr> opt_populationSize = Some 1, opt_generations = Some 1, opt_mutationRate = None,
           opt_selectionPressure = None, opt_fitnessFunction = None \<rparr>) = Inr (r1, s1, j1) \<and>
      evolve None (\<lambda>n. 0) j1 s1 = Inr (r2, s2, j2) \<and>
      result_generations r2 = result_generations r1 @ ds \<and> length ds = 1) \<and>
   (0::nat) < 1 \<and>
   last (result_wealth (fst (PT_simulate (\<lambda>n. 0) 0 (ProspectTheorySimulator
         \<lparr> opt_alpha = None, opt_beta = None, opt_lambda = None, opt_gamma = None,
           opt_delta = None, opt_lokLevel = None \<rparr>) 1))) \<le>
   hd (result_wealth (fst (PT_simulate (\<lambda>n. 0) 0
         (fst (snd (PT_simulate (\<lambda>n. 0) 0 (ProspectTheorySimulator
         \<lparr> opt_alpha = None, opt_beta = None, opt_lambda = None, opt_gamma = None,
           opt_delta = None, opt_lokLevel = None \<rparr>) 1))) 1)))"
proof -
  let ?e = "EPRSimulator demographicsCollapse"
  let ?o = "EvolutionarySimulator
         \<lparr> opt_populationSize = Some 1, opt_generations = Some 1, opt_mutationRate = None,
           opt_selectionPressure = None, opt_fitnessFunction = None \<rparr>"
  let ?p = "ProspectTheorySimulator
         \<lparr> opt_alpha = None, opt_beta = None, opt_lambda = None, opt_gamma = None,
           opt_delta = None, opt_lokLevel = None \<rparr>"
  have st: "0 < steps (scenario ?e)" by (simp add: EPRSimulator_scenario demographicsCollapse_def)
  have v: "valid_rng (\<lambda>n. 0)" by (simp add: valid_rng_def)
  have n: "0 < populationSize (evo_config ?o)" by (simp add: EvolutionarySimulator_def or_default_def)
  have p: "population ?o = []" by (simp add: EvolutionarySimulator_def)
  have g: "generations (evo_config ?o) = 1" by (simp add: EvolutionarySimulator_def or_default_def)
  have one: "(0::nat) < 1" by simp
  note t = state_kept_between_calls[of ?e "\<lambda>n. 0" 0 "\<lambda>n. 0" 0 ?o None None ?p 1 1]
  from t st have a: "hd (history_stability (history (fst (EPR_simulate (\<lambda>n. 0) 0
         (fst (snd (EPR_simulate (\<lambda>n. 0) 0 ?e))))))) =
     stability (finalState (fst (EPR_simulate (\<lambda>n. 0) 0 ?e)))" by blast
  from t v n p have "\<exists>r1 s1 j1 r2 s2 j2 ds.
      evolve None (\<lambda>n. 0) 0 ?o = Inr (r1, s1, j1) \<and> evolve None (\<lambda>n. 0) j1 s1 = Inr (r2, s2, j2) \<and>
      result_generations r2 = result_generations r1 @ ds \<and>
      length ds = generations (evo_config ?o)" by blast
  then have b: "\<exists>r1 s1 j1 r2 s2 j2 ds.
      evolve None (\<lambda>n. 0) 0 ?o = Inr (r1, s1, j1) \<and> evolve None (\<lambda>n. 0) j1 s1 = Inr (r2, s2, j2) \<and>
      result_generations r2 = result_generations r1 @ ds \<and> length ds = 1"
    unfolding g .
  from t one have c: "last (result_wealth (fst (PT_simulate (\<lambda>n. 0) 0 ?p 1))) \<le>
      hd (result_wealth (fst (PT_simulate (\<lambda>n. 0) 0 (fst (snd (PT_simulate (\<lambda>n. 0) 0 ?p 1))) 1)))"
    by blast
  show ?thesis using st a v n p b one c by (intro conjI)
qed

text \<open>
  C8 as stated fails: after one call of \<^verbatim>\<open>evolve\<close> (one generation, one individual)
  a second call on the same object, at draw 22 of the random stream, returns two
  generation entries and the convergence 1, where a fresh object at the same draw
  returns one entry and the convergence 0.
\<close>

lemma single_start:
  "evo_initialize (\<lambda>n. 0) i
     \<lparr> evo_config = \<lparr> populationSize = 1, generations = 1, mutationRate = 1 / 10,
         selectionPressure = 1 / 5, fitnessFunction = ''default'' \<rparr>,
       population = [], generationHistory = [] \<rparr> 5 =
   (\<lparr> evo_config = \<lparr> populationSize = 1, generations = 1, mutationRate = 1 / 10,
         selectionPressure = 1 / 5, fitnessFunction = ''default'' \<rparr>,
      population = [\<lparr> genes = [0, 0, 0, 0, 0], fitness = 0 \<rparr>],
      generationHistory = [] \<rparr>, i + 5)"
  by (simp add: evo_initialize_def upt_rec)

lemma single_step:
  "evolve_step None (\<lambda>n. 0) 0 i
     \<lparr> evo_config = \<lparr> populationSize = 1, generations = 1, mutationRate = 1 / 10,
         selectionPressure = 1 / 5, fitnessFunction = ''default'' \<rparr>,
       population = [\<lparr> genes = [0, 0, 0, 0, 0], fitness = f \<rparr>],
       generationHistory = h \<rparr> =
   Inr (\<lparr> evo_config = \<lparr> populationSize = 1, generations = 1, mutationRate = 1 / 10,
           selectionPressure = 1 / 5, fitnessFunction = ''default'' \<rparr>,
         population = [\<lparr> genes = [0, 0, 0, 0, 0], fitness = 0 \<rparr>],
         generationHistory = h @
           [\<lparr> generation = 0, avgFitness = 0, bestFitness = 0, diversity = Some 0 \<rparr>] \<rparr>,
        i + 17)"
  by (simp add: evo_defs power2_eq_square upt_rec)

lemma single_run:
  assumes "start = (if length (population sim) = 0
                    then evo_initialize (\<lambda>n. 0) i sim
                      (case population sim of
                         [] \<Rightarrow> 5
                       | first # rest \<Rightarrow> if length (genes first) = 0 then 5 else length (genes first))
                    else (sim, i))"
    and "fst start =
      \<lparr> evo_config = \<lparr> populationSize = 1, generations = 1, mutationRate = 1 / 10,
         selectionPressure = 1 / 5, fitnessFunction = ''default'' \<rparr>,
        population = [\<lparr> genes = [0, 0, 0, 0, 0], fitness = f \<rparr>],
        generationHistory = h \<rparr>"
  shows "evolve None (\<lambda>n. 0) i sim =
     Inr (\<lparr> result_generations = h @
             [\<lparr> generation = 0, avgFitness = 0, bestFitness = 0, diversity = Some 0 \<rparr>],
            finalFitness = 0, bestSolution = [0, 0, 0, 0, 0],
            result_convergence = evo_calculateConvergence (h @
             [\<lparr> generation = 0, avgFitness = 0, bestFitness = 0, diversity = Some 0 \<rparr>]) \<rparr>,
          \<lparr> evo_config = \<lparr> populationSize = 1, generations = 1, mutationRate = 1 / 10,
              selectionPressure = 1 / 5, fitnessFunction = ''default'' \<rparr>,
            population = [\<lparr> genes = [0, 0, 0, 0, 0], fitness = 0 \<rparr>],
            generationHistory = h @
             [\<lparr> generation = 0, avgFitness = 0, bestFitness = 0, diversity = Some 0 \<rparr>] \<rparr>,
          snd start + 17)"
proof -
  let ?cfg = "\<lparr> populationSize = 1, generations = 1, mutationRate = 1 / 10,
         selectionPressure = 1 / 5, fitnessFunction = ''default'' \<rparr>"
  let ?d = "\<lparr> generation = 0, avgFitness = 0, bestFitness = 0, diversity = Some 0 \<rparr>"
  let ?sim1 = "\<lparr> evo_config = ?cfg,
         population = [\<lparr> genes = [0, 0, 0, 0, 0], fitness = 0 \<rparr>],
         generationHistory = h @ [?d] \<rparr>"
  have loop: "evolve_loop None (\<lambda>n. 0) (generations (evo_config (fst start))) 0 (snd start) (fst start) =
      Inr (?sim1, snd start + 17)"
    unfolding assms(2) using single_step[of "snd start" f h] by simp
  have pop: "sort_population (evaluateFitness None (population ?sim1)) =
      \<lparr> genes = [0, 0, 0, 0, 0], fitness = 0 \<rparr> # []"
    by (simp add: sort_population_def evaluateFitness_def defaultFitnessFunction_def)
  show ?thesis using evolve_unfold[OF assms(1) loop pop] by simp
qed


theorem second_call_depends_on_first:
  "evolve None (\<lambda>n. 0) 0 (EvolutionarySimulator
       \<lparr> opt_populationSize = Some 1, opt_generations = Some 1, opt_mutationRate = None,
         opt_selectionPressure = None, opt_fitnessFunction = None \<rparr>) =
     Inr (\<lparr> result_generations =
             [\<lparr> generation = 0, avgFitness = 0, bestFitness = 0, diversity = Some 0 \<rparr>],
            finalFitness = 0, bestSolution = [0, 0, 0, 0, 0], result_convergence = 0 \<rparr>,
          \<lparr> evo_config = \<lparr> populationSize = 1, generations = 1, mutationRate = 1 / 10,
              selectionPressure = 1 / 5, fitnessFunction = ''default'' \<rparr>,
            population = [\<lparr> genes = [0, 0, 0, 0, 0], fitness = 0 \<rparr>],
            generationHistory =
             [\<lparr> generation = 0, avgFitness = 0, bestFitness = 0, diversity = Some 0 \<rparr>] \<rparr>,
          22) \<and>
   evolve None (\<lambda>n. 0) 22
       \<lparr> evo_config = \<lparr> populationSize = 1, generations = 1, mutationRate = 1 / 10,
           selectionPressure = 1 / 5, fitnessFunction = ''default'' \<rparr>,
         population = [\<lparr> genes = [0, 0, 0, 0, 0], fitness = 0 \<rparr>],
         generationHistory =
           [\<lparr> generation = 0, avgFitness = 0, bestFitness = 0, diversity = Some 0 \<rparr>] \<rparr> =
     Inr (\<lparr> result_generations =
             [\<lparr> generation = 0, avgFitness = 0, bestFitness = 0, diversity = Some 0 \<rparr>,
              \<lparr> generation = 0, avgFitness = 0, bestFitness = 0, diversity = Some 0 \<rparr>],
            finalFitness = 0, bestSolution = [0, 0, 0, 0, 0], result_convergence = 1 \<rparr>,
          \<lparr> evo_config = \<lparr> populationSize = 1, generations = 1, mutationRate = 1 / 10,
              selectionPressure = 1 / 5, fitnessFunction = ''default'' \<rparr>,
            population = [\<lparr> genes = [0, 0, 0, 0, 0], fitness = 0 \<rparr>],
            generationHistory =
             [\<lparr> generation = 0, avgFitness = 0, bestFitness = 0, diversity = Some 0 \<rparr>,
              \<lparr> generation = 0, avgFitness = 0, bestFitness = 0, diversity = Some 0 \<rparr>] \<rparr>,
          39) \<and>
   evolve None (\<lambda>n. 0) 22 (EvolutionarySimulator
       \<lparr> opt_populationSize = Some 1, opt_generations = Some 1, opt_mutationRate = None,
         opt_selectionPressure = None, opt_fitnessFunction = None \<rparr>) =
     Inr (\<lparr> result_generations =
             [\<lparr> generation = 0, avgFitness = 0, bestFitness = 0, diversity = Some 0 \<rparr>],
            finalFitness = 0, bestSolution = [0, 0, 0, 0, 0], result_convergence = 0 \<rparr>,
          \<lparr> evo_config = \<lparr> populationSize = 1, generations = 1, mutationRate = 1 / 10,
              selectionPressure = 1 / 5, fitnessFunction = ''default'' \<rparr>,
            population = [\<lparr> genes = [0, 0, 0, 0, 0], fitness = 0 \<rparr>],
            generationHistory =
             [\<lparr> generation = 0, avgFitness = 0, bestFitness = 0, diversity = Some 0 \<rparr>] \<rparr>,
          44) \<and>
   result_generations (fst (projr (evolve None (\<lambda>n. 0) 22
       \<lparr> evo_config = \<lparr> populationSize = 1, generations = 1, mutationRate = 1 / 10,
           selectionPressure = 1 / 5, fitnessFunction = ''default'' \<rparr>,
         population = [\<lparr> genes = [0, 0, 0, 0, 0], fitness = 0 \<rparr>],
         generationHistory =
           [\<lparr> generation = 0, avgFitness = 0, bestFitness = 0, diversity = Some 0 \<rparr>] \<rparr>))) \<noteq>
   result_generations (fst (projr (evolve None (\<lambda>n. 0) 22 (EvolutionarySimulator
       \<lparr> opt_populationSize = Some 1, opt_generations = Some 1, opt_mutationRate = None,
         opt_selectionPressure = None, opt_fitnessFunction = None \<rparr>))))"
proof -
  let ?cfg = "\<lparr> populationSize = 1, generations = 1, mutationRate = 1 / 10,
         selectionPressure = 1 / 5, fitnessFunction = ''default'' \<rparr>"
  let ?d = "\<lparr> generation = 0, avgFitness = 0, bestFitness = 0, diversity = Some 0 \<rparr>"
  let ?fresh = "\<lparr> evo_config = ?cfg, population = [], generationHistory = [] \<rparr>"
  let ?used = "\<lparr> evo_config = ?cfg, population = [\<lparr> genes = [0, 0, 0, 0, 0], fitness = 0 \<rparr>],
                 generationHistory = [?d] \<rparr>"
  have fresh: "EvolutionarySimulator
       \<lparr> opt_populationSize = Some 1, opt_generations = Some 1, opt_mutationRate = None,
         opt_selectionPressure = None, opt_fitnessFunction = None \<rparr> = ?fresh"
    by (simp add: EvolutionarySimulator_def or_default_def)
  have c1: "evo_calculateConvergence ([] @ [?d]) = 0" by (simp add: evo_calculateConvergence_def)
  have c2: "evo_calculateConvergence ([?d] @ [?d]) = 1"
    by (simp add: evo_calculateConvergence_def calculateVariance_def)
  have s0: "evo_initialize (\<lambda>n. 0) i ?fresh 5 =
      (if length (population ?fresh) = 0
       then evo_initialize (\<lambda>n. 0) i ?fresh
              (case population ?fresh of
                 [] \<Rightarrow> 5
               | first # rest \<Rightarrow> if length (genes first) = 0 then 5 else length (genes first))
       else (?fresh, i))" for i
    by simp
  have s1: "(?used, 22::nat) =
      (if length (population ?used) = 0
       then evo_initialize (\<lambda>n. 0) 22 ?used
              (case population ?used of
                 [] \<Rightarrow> 5
               | first # rest \<Rightarrow> if length (genes first) = 0 then 5 else length (genes first))
       else (?used, 22))"
    by simp
  have f0: "fst (evo_initialize (\<lambda>n. 0) i ?fresh 5) =
      \<lparr> evo_config = ?cfg, population = [\<lparr> genes = [0, 0, 0, 0, 0], fitness = 0 \<rparr>],
        generationHistory = [] \<rparr>" for i
    by (simp only: single_start fst_conv)
  have n0: "snd (evo_initialize (\<lambda>n. 0) i ?fresh 5) = i + 5" for i
    by (simp only: single_start snd_conv)
  have a: "evolve None (\<lambda>n. 0) 0 ?fresh =
      Inr (\<lparr> result_generations = [?d], finalFitness = 0, bestSolution = [0, 0, 0, 0, 0],
             result_convergence = 0 \<rparr>, ?used, 22)"
    using single_run[OF s0[of 0] f0[of 0]] c1 n0[of 0] by simp
  have b: "evolve None (\<lambda>n. 0) 22 ?used =
      Inr (\<lparr> result_generations = [?d, ?d], finalFitness = 0, bestSolution = [0, 0, 0, 0, 0],
             result_convergence = 1 \<rparr>,
           \<lparr> evo_config = ?cfg, population = [\<lparr> genes = [0, 0, 0, 0, 0], fitness = 0 \<rparr>],
             generationHistory = [?d, ?d] \<rparr>, 39)"
    using single_run[OF s1, of 0 "[?d]"] c2 by simp
  have c: "evolve None (\<lambda>n. 0) 22 ?fresh =
      Inr (\<lparr> result_generations = [?d], finalFitness = 0, bestSolution = [0, 0, 0, 0, 0],
             result_convergence = 0 \<rparr>, ?used, 44)"
    using single_run[OF s0[of 22] f0[of 22]] c1 n0[of 22] by simp
  have d: "result_generations (fst (projr (evolve None (\<lambda>n. 0) 22 ?used))) \<noteq>
      result_generations (fst (projr (evolve None (\<lambda>n. 0) 22 ?fresh)))"
    unfolding b c by simp
  show ?thesis unfolding fresh using a b c d by (intro conjI)
qed

end
